theory Spec2Isabelle
  imports Complex_Main
begin

section \<open>Data model (quiz/models.py)\<close>

text \<open>
  Primary keys are UUIDs drawn with \<^verbatim>\<open>uuid.uuid4\<close>. A UUID is a natural number here and
  \<open>uuid4\<close> draws the next one from a supply kept with the tables, so a drawn value is
  new as long as every stored key is below the supply. Timestamps are seconds on the
  rational line.
\<close>

type_synonym uuid = nat
type_synonym datetime = rat

subsection \<open>Python floats\<close>

text \<open>
  A Python \<^verbatim>\<open>float\<close> is an IEEE 754 double. \<open>Double m e\<close> is the value \<open>m * 2 ^ e\<close>; the
  results of the operations below have \<open>m = 0\<close> or \<open>2 ^ 52 \<le> m < 2 ^ 53\<close>. Only the
  non-negative doubles of the normal range occur: the operands are counts of rows and the
  constant 100.
\<close>

datatype double = Double nat int

definition double_val :: "double \<Rightarrow> rat" where
  "double_val d =
     (case d of Double m e \<Rightarrow>
        if 0 \<le> e then of_nat (m * 2 ^ nat e) else of_nat m / of_nat (2 ^ nat (- e)))"

text \<open>The number of binary digits of \<open>n\<close>.\<close>

fun bit_length :: "nat \<Rightarrow> nat" where
  "bit_length n = (if n = 0 then 0 else Suc (bit_length (n div 2)))"

declare bit_length.simps [simp del]

text \<open>The integer nearest to \<open>a / b\<close>, the even one of two equally near.\<close>

definition round_half_even :: "nat \<Rightarrow> nat \<Rightarrow> nat" where
  "round_half_even a b =
     (let d = a div b; r = a mod b
      in if 2 * r < b then d
         else if b < 2 * r then Suc d
         else if even d then d else Suc d)"

text \<open>\<open>2 ^ e \<le> p / q\<close>, decided on the naturals.\<close>

definition at_least_pow2 :: "nat \<Rightarrow> nat \<Rightarrow> int \<Rightarrow> bool" where
  "at_least_pow2 p q e = (if 0 \<le> e then q * 2 ^ nat e \<le> p else q \<le> p * 2 ^ nat (- e))"

text \<open>
  The double nearest to \<open>p / q\<close> (round to nearest, ties to even): \<open>E\<close> is the binary
  exponent of the quotient, found from the bit lengths, and the quotient is rounded to 53
  significant bits.
\<close>

definition round_to_double :: "nat \<Rightarrow> nat \<Rightarrow> double" where
  "round_to_double p q =
     (if p = 0 then Double 0 0
      else
        (let e1 = int (bit_length p) - int (bit_length q);
             E = (if at_least_pow2 p q e1 then e1 else e1 - 1);
             e = E - 52;
             a = (if 0 \<le> e then p else p * 2 ^ nat (- e));
             b = (if 0 \<le> e then q * 2 ^ nat e else q);
             m = round_half_even a b
         in if m = 2 ^ 53 then Double (2 ^ 52) (e + 1) else Double m e))"

text \<open>\<^verbatim>\<open>p / q\<close> on two Python ints: the correctly rounded quotient.\<close>

definition true_divide :: "nat \<Rightarrow> nat \<Rightarrow> double" where
  "true_divide p q = round_to_double p q"

text \<open>\<^verbatim>\<open>x * k\<close> for a float \<open>x\<close> and a small int \<open>k\<close>: the correctly rounded product.\<close>

definition float_mul_int :: "double \<Rightarrow> nat \<Rightarrow> double" where
  "float_mul_int x k =
     (case x of Double m e \<Rightarrow>
        if 0 \<le> e then round_to_double (m * k * 2 ^ nat e) 1
        else round_to_double (m * k) (2 ^ nat (- e)))"

subsection \<open>Rows and tables\<close>

text \<open>\<^verbatim>\<open>request.user\<close>: Django's \<^verbatim>\<open>AnonymousUser\<close>, or a \<^verbatim>\<open>User\<close> row, known by its key.\<close>

datatype viewer = AnonymousUser | Authenticated nat

record User =
  user_id :: nat
  user_username :: string
  user_email :: string

record Quiz =
  quiz_id :: uuid
  quiz_title :: string
  quiz_creator :: nat
  quiz_duration_minutes :: nat
  quiz_is_public :: bool
  quiz_share_code :: uuid
  quiz_allow_anonymous_attempts :: bool

record Question =
  question_id :: uuid
  question_quiz :: uuid
  question_text :: string
  question_order :: nat

record Choice =
  choice_id :: uuid
  choice_question :: uuid
  choice_text :: string
  choice_is_correct :: bool
  choice_order :: nat

record QuizSession =
  session_id :: uuid
  session_quiz :: uuid
  session_user :: nat
  session_started_at :: datetime
  session_completed_at :: "datetime option"
  session_score :: "double option"

record UserAnswer =
  answer_id :: uuid
  answer_session :: uuid
  answer_question :: uuid
  answer_selected_choice :: uuid
  answer_answered_at :: datetime

record QuizShare =
  share_id :: uuid
  share_quiz :: uuid
  share_shared_by :: nat
  share_shared_with :: nat
  share_shared_at :: datetime
  share_permission_type :: string

text \<open>
  The extraction result stored on an upload (\<^verbatim>\<open>ImageUpload.parsed_data\<close>), a JSON object:
  every key may be absent, and \<open>None\<close> is the absent key.
\<close>

record choice_data =
  cd_choice_text :: "string option"
  cd_is_correct :: "bool option"

record q_data =
  qd_question_text :: "string option"
  qd_choices :: "choice_data list option"

record parsed_data =
  pd_questions :: "q_data list option"
  pd_error :: "string option"

record ImageUpload =
  upload_id :: uuid
  upload_user :: nat
  upload_processed :: bool
  upload_parsed_data :: "parsed_data option"

text \<open>
  The tables, in insertion order, and the supply of UUIDs; the state of the connection
  that \<^verbatim>\<open>transaction.atomic\<close> reads and writes; and what the database backend accepts
  on \<^verbatim>\<open>INSERT\<close> and \<^verbatim>\<open>UPDATE\<close>. The backend is not part of the repository: the range of
  an integer column and whether \<^verbatim>\<open>max_length\<close> is enforced differ between backends (SQLite
  refuses an integer from \<open>2 ^ 63\<close> on, PostgreSQL from \<open>2 ^ 31\<close> on), so the checks are
  parameters.
\<close>

record database =
  users :: "User list"
  quizzes :: "Quiz list"
  questions :: "Question list"
  choices :: "Choice list"
  image_uploads :: "ImageUpload list"
  sessions :: "QuizSession list"
  answers :: "UserAnswer list"
  shares :: "QuizShare list"
  next_uuid :: uuid
  in_atomic_block :: bool
  needs_rollback :: bool
  quiz_accepted :: "Quiz \<Rightarrow> bool"
  question_accepted :: "Question \<Rightarrow> bool"
  choice_accepted :: "Choice \<Rightarrow> bool"
  share_accepted :: "QuizShare \<Rightarrow> bool"

definition uuid4 :: "database \<Rightarrow> uuid \<times> database" where
  "uuid4 db = (next_uuid db, db\<lparr>next_uuid := Suc (next_uuid db)\<rparr>)"

text \<open>
  Python exceptions the modelled code can raise; \<open>DatabaseError\<close> stands for whatever the
  backend raises when it refuses a row.
\<close>

datatype exn = DoesNotExist | MultipleObjectsReturned | KeyError | TypeError | DatabaseError

text \<open>
  A \<^verbatim>\<open>Response\<close> is its body and its HTTP status. \<open>Error msg\<close> is the body
  \<^verbatim>\<open>{"error": msg}\<close>; \<open>NotFound\<close> and \<open>NotAuthenticated\<close> are the framework's own
  answers to a failed \<^verbatim>\<open>get_object\<close> and a failed \<^verbatim>\<open>IsAuthenticated\<close>; \<open>ServerError e\<close>
  is the answer to an exception no handler of the view catches.
\<close>

datatype body =
    Error string
  | NotFound
  | NotAuthenticated
  | ServerError exn
  | UserAnswerData UserAnswer
  | QuizSessionResultData QuizSession
  | QuizCreated uuid uuid
  | QuizShareData QuizShare

datatype response = Response body nat

section \<open>Session model and scoring (quiz/models.py, quiz/utils.py)\<close>

definition get_quiz :: "database \<Rightarrow> uuid \<Rightarrow> Quiz option" where
  "get_quiz db qid = find (\<lambda>q. quiz_id q = qid) (quizzes db)"

definition is_completed :: "QuizSession \<Rightarrow> bool" where
  "is_completed s = (session_completed_at s \<noteq> None)"

text \<open>
  \<^verbatim>\<open>QuizSession.is_timed_out\<close>, at the clock reading \<open>now\<close>. Reading \<^verbatim>\<open>self.quiz\<close> raises
  when the key does not resolve.
\<close>

definition is_timed_out :: "datetime \<Rightarrow> database \<Rightarrow> QuizSession \<Rightarrow> exn + bool" where
  "is_timed_out now db s =
     (if session_completed_at s = None then
        (case get_quiz db (session_quiz s) of
           None \<Rightarrow> Inl DoesNotExist
         | Some q \<Rightarrow>
             (let time_elapsed = now - session_started_at s
              in Inr (time_elapsed > of_nat (quiz_duration_minutes q * 60))))
      else Inr False)"

text \<open>\<^verbatim>\<open>selected_choice__is_correct=True\<close>: the join of an answer with its choice.\<close>

definition selected_choice_is_correct :: "database \<Rightarrow> UserAnswer \<Rightarrow> bool" where
  "selected_choice_is_correct db a =
     list_ex (\<lambda>c. choice_id c = answer_selected_choice a \<and> choice_is_correct c) (choices db)"

text \<open>\<^verbatim>\<open>session.quiz.questions.count()\<close>.\<close>

definition total_questions_count :: "database \<Rightarrow> QuizSession \<Rightarrow> nat" where
  "total_questions_count db s =
     length (filter (\<lambda>q. question_quiz q = session_quiz s) (questions db))"

text \<open>\<^verbatim>\<open>session.answers.filter(selected_choice__is_correct=True).count()\<close>.\<close>

definition correct_answers_count :: "database \<Rightarrow> QuizSession \<Rightarrow> nat" where
  "correct_answers_count db s =
     length (filter (\<lambda>a. answer_session a = session_id s \<and> selected_choice_is_correct db a)
               (answers db))"

text \<open>
  \<^verbatim>\<open>calculate_quiz_score\<close>: the int \<^verbatim>\<open>0\<close> for a quiz without questions, which the
  \<^verbatim>\<open>FloatField\<close> stores as \<^verbatim>\<open>0.0\<close>; else the float \<^verbatim>\<open>(correct_answers / total_questions) * 100\<close>.
\<close>

definition calculate_quiz_score :: "database \<Rightarrow> QuizSession \<Rightarrow> double" where
  "calculate_quiz_score db s =
     (let total_questions = total_questions_count db s
      in if total_questions = 0 then Double 0 0
         else
           (let correct_answers = correct_answers_count db s;
                score = float_mul_int (true_divide correct_answers total_questions) 100
            in score))"

text \<open>\<^verbatim>\<open>session.save()\<close>: update the row with this key, insert when there is none.\<close>

definition save_session :: "QuizSession \<Rightarrow> database \<Rightarrow> database" where
  "save_session s db =
     (if list_ex (\<lambda>x. session_id x = session_id s) (sessions db)
      then db\<lparr>sessions := map (\<lambda>x. if session_id x = session_id s then s else x) (sessions db)\<rparr>
      else db\<lparr>sessions := sessions db @ [s]\<rparr>)"

definition complete_quiz_session ::
  "datetime \<Rightarrow> QuizSession \<Rightarrow> database \<Rightarrow> QuizSession \<times> database" where
  "complete_quiz_session now session db =
     (if session_completed_at session = None then
        (let s1 = session\<lparr>session_completed_at := Some now\<rparr>;
             s2 = s1\<lparr>session_score := Some (calculate_quiz_score db s1)\<rparr>
         in (s2, save_session s2 db))
      else (session, db))"

section \<open>Session views (quiz/views.py, QuizSessionViewSet)\<close>

definition QuizSessionViewSet_get_queryset :: "nat \<Rightarrow> database \<Rightarrow> QuizSession list" where
  "QuizSessionViewSet_get_queryset user db =
     filter (\<lambda>s. session_user s = user
                \<or> list_ex (\<lambda>q. quiz_id q = session_quiz s \<and> quiz_creator q = user) (quizzes db))
            (sessions db)"

definition IsQuizCreatorOrParticipant :: "nat \<Rightarrow> database \<Rightarrow> QuizSession \<Rightarrow> exn + bool" where
  "IsQuizCreatorOrParticipant user db obj =
     (case get_quiz db (session_quiz obj) of
        None \<Rightarrow> Inl DoesNotExist
      | Some q \<Rightarrow>
          if quiz_creator q = user then Inr True
          else if session_user obj = user then Inr True
          else Inr False)"

text \<open>
  \<^verbatim>\<open>self.get_object()\<close> under \<^verbatim>\<open>[IsAuthenticated, IsQuizCreatorOrParticipant]\<close>: the
  framework refuses an anonymous request before the handler runs, looks the key up in the
  queryset, and checks the object permission.
\<close>

definition QuizSessionViewSet_get_object ::
  "viewer \<Rightarrow> uuid \<Rightarrow> database \<Rightarrow> response + QuizSession" where
  "QuizSessionViewSet_get_object v pk db =
     (case v of
        AnonymousUser \<Rightarrow> Inl (Response NotAuthenticated 401)
      | Authenticated user \<Rightarrow>
          (case filter (\<lambda>s. session_id s = pk) (QuizSessionViewSet_get_queryset user db) of
             [] \<Rightarrow> Inl (Response NotFound 404)
           | [s] \<Rightarrow>
               (case IsQuizCreatorOrParticipant user db s of
                  Inl e \<Rightarrow> Inl (Response (ServerError e) 500)
                | Inr True \<Rightarrow> Inr s
                | Inr False \<Rightarrow> Inl (Response (Error ''You do not have permission to perform this action.'') 403))
           | _ \<Rightarrow> Inl (Response (ServerError MultipleObjectsReturned) 500)))"

text \<open>
  \<^verbatim>\<open>UserAnswer.objects.update_or_create(session=, question=, defaults={selected_choice})\<close>;
  \<open>now\<close> is the clock reading that \<^verbatim>\<open>auto_now_add\<close> stores on a new row.
\<close>

definition UserAnswer_update_or_create ::
  "datetime \<Rightarrow> uuid \<Rightarrow> uuid \<Rightarrow> uuid \<Rightarrow> database \<Rightarrow> exn + (UserAnswer \<times> bool) \<times> database" where
  "UserAnswer_update_or_create now sid qid cid db =
     (case filter (\<lambda>a. answer_session a = sid \<and> answer_question a = qid) (answers db) of
        [] \<Rightarrow>
          (let (new_id, db1) = uuid4 db;
               a = \<lparr>answer_id = new_id, answer_session = sid, answer_question = qid,
                    answer_selected_choice = cid, answer_answered_at = now\<rparr>
           in Inr ((a, True), db1\<lparr>answers := answers db1 @ [a]\<rparr>))
      | [a] \<Rightarrow>
          (let a' = a\<lparr>answer_selected_choice := cid\<rparr>
           in Inr ((a', False),
                   db\<lparr>answers := map (\<lambda>x. if answer_id x = answer_id a then a' else x) (answers db)\<rparr>))
      | _ \<Rightarrow> Inl MultipleObjectsReturned)"

text \<open>
  \<^verbatim>\<open>QuizSessionViewSet.submit_answer\<close>. \<open>t_check\<close> is the clock reading of
  \<^verbatim>\<open>is_timed_out\<close>, \<open>t_write\<close> the later reading that is stored (the completion time, or
  the new answer's \<^verbatim>\<open>answered_at\<close>). \<open>data_question_id\<close> and \<open>data_choice_id\<close> are
  the entries \<^verbatim>\<open>question_id\<close> and \<^verbatim>\<open>choice_id\<close> of \<^verbatim>\<open>request.data\<close>, \<open>None\<close> when
  missing.
\<close>

definition QuizSessionViewSet_submit_answer ::
  "datetime \<Rightarrow> datetime \<Rightarrow> viewer \<Rightarrow> uuid \<Rightarrow> uuid option \<Rightarrow> uuid option \<Rightarrow> database
     \<Rightarrow> response \<times> database" where
  "QuizSessionViewSet_submit_answer t_check t_write v pk data_question_id data_choice_id db =
     (case QuizSessionViewSet_get_object v pk db of
        Inl r \<Rightarrow> (r, db)
      | Inr session \<Rightarrow>
          if is_completed session then
            (Response (Error ''This quiz session is already completed.'') 400, db)
          else
            (case is_timed_out t_check db session of
               Inl e \<Rightarrow> (Response (ServerError e) 500, db)
             | Inr True \<Rightarrow>
                 (Response (Error ''Time's up! The quiz session has expired.'') 400,
                  snd (complete_quiz_session t_write session db))
             | Inr False \<Rightarrow>
                 (case (data_question_id, data_choice_id) of
                    (Some qid, Some cid) \<Rightarrow>
                      (case filter (\<lambda>q. question_id q = qid \<and> question_quiz q = session_quiz session)
                                   (questions db) of
                         [] \<Rightarrow> (Response (Error ''Invalid question for this quiz'') 400, db)
                       | [question] \<Rightarrow>
                           (case filter (\<lambda>c. choice_id c = cid
                                              \<and> choice_question c = question_id question)
                                        (choices db) of
                              [] \<Rightarrow> (Response (Error ''Invalid choice for this question'') 400, db)
                            | [choice] \<Rightarrow>
                                (case UserAnswer_update_or_create t_write (session_id session)
                                        (question_id question) (choice_id choice) db of
                                   Inl e \<Rightarrow> (Response (ServerError e) 500, db)
                                 | Inr ((user_answer, created), db') \<Rightarrow>
                                     (Response (UserAnswerData user_answer) 200, db'))
                            | _ \<Rightarrow> (Response (ServerError MultipleObjectsReturned) 500, db))
                       | _ \<Rightarrow> (Response (ServerError MultipleObjectsReturned) 500, db))
                  | _ \<Rightarrow> (Response (Error ''Question ID and Choice ID are required'') 400, db))))"

text \<open>\<^verbatim>\<open>QuizSessionViewSet.complete\<close>; \<open>now\<close> is the clock reading stored as completion time.\<close>

definition QuizSessionViewSet_complete ::
  "datetime \<Rightarrow> viewer \<Rightarrow> uuid \<Rightarrow> database \<Rightarrow> response \<times> database" where
  "QuizSessionViewSet_complete now v pk db =
     (case QuizSessionViewSet_get_object v pk db of
        Inl r \<Rightarrow> (r, db)
      | Inr session \<Rightarrow>
          if is_completed session then
            (Response (Error ''This session is already completed'') 400, db)
          else
            (let (session', db') = complete_quiz_session now session db
             in (Response (QuizSessionResultData session') 200, db')))"

section \<open>Building a quiz from extracted data (quiz/utils.py, quiz/views.py)\<close>

text \<open>
  \<^verbatim>\<open>Model.save\<close> runs its query under \<^verbatim>\<open>mark_for_rollback_on_error\<close>: an error inside an
  atomic block marks the transaction for rollback.
\<close>

definition mark_for_rollback_on_error :: "database \<Rightarrow> database" where
  "mark_for_rollback_on_error db =
     (if in_atomic_block db then db\<lparr>needs_rollback := True\<rparr> else db)"

text \<open>
  \<^verbatim>\<open>Model.objects.create\<close> draws the key and appends the row, or raises when the backend
  refuses the row. The share code is the first eight characters of a second UUID; the
  model stores that UUID. \<^verbatim>\<open>duration_minutes\<close> is a Python int, and the column of a
  \<^verbatim>\<open>PositiveIntegerField\<close> refuses a negative one.
\<close>

definition Quiz_objects_create ::
  "string \<Rightarrow> nat \<Rightarrow> int \<Rightarrow> bool \<Rightarrow> database \<Rightarrow> (exn \<times> database) + (Quiz \<times> database)" where
  "Quiz_objects_create title creator duration_minutes is_public db =
     (let (share_code, db1) = uuid4 db;
          (new_id, db2) = uuid4 db1;
          quiz = \<lparr>quiz_id = new_id, quiz_title = title, quiz_creator = creator,
                  quiz_duration_minutes = nat duration_minutes, quiz_is_public = is_public,
                  quiz_share_code = share_code, quiz_allow_anonymous_attempts = False\<rparr>
      in if 0 \<le> duration_minutes \<and> quiz_accepted db2 quiz
         then Inr (quiz, db2\<lparr>quizzes := quizzes db2 @ [quiz]\<rparr>)
         else Inl (DatabaseError, mark_for_rollback_on_error db2))"

definition Question_objects_create ::
  "uuid \<Rightarrow> string \<Rightarrow> nat \<Rightarrow> database \<Rightarrow> (exn \<times> database) + (Question \<times> database)" where
  "Question_objects_create quiz text order db =
     (let (new_id, db1) = uuid4 db;
          question = \<lparr>question_id = new_id, question_quiz = quiz, question_text = text,
                      question_order = order\<rparr>
      in if question_accepted db1 question
         then Inr (question, db1\<lparr>questions := questions db1 @ [question]\<rparr>)
         else Inl (DatabaseError, mark_for_rollback_on_error db1))"

definition Choice_objects_create ::
  "uuid \<Rightarrow> string \<Rightarrow> bool \<Rightarrow> nat \<Rightarrow> database \<Rightarrow> (exn \<times> database) + (Choice \<times> database)" where
  "Choice_objects_create question text is_correct order db =
     (let (new_id, db1) = uuid4 db;
          choice = \<lparr>choice_id = new_id, choice_question = question, choice_text = text,
                    choice_is_correct = is_correct, choice_order = order\<rparr>
      in if choice_accepted db1 choice
         then Inr (choice, db1\<lparr>choices := choices db1 @ [choice]\<rparr>)
         else Inl (DatabaseError, mark_for_rollback_on_error db1))"

text \<open>
  The inner loop of \<^verbatim>\<open>create_quiz_from_parsed_data\<close> over
  \<^verbatim>\<open>enumerate(q_data.get('choices', []))\<close>, from position \<open>c_order\<close> (the source's
  \<^verbatim>\<open>choice_order\<close>) on. A raise leaves the rows written so far in the tables: the left
  result carries them.
\<close>

fun create_choices ::
  "uuid \<Rightarrow> nat \<Rightarrow> choice_data list \<Rightarrow> database \<Rightarrow> (exn \<times> database) + database" where
  "create_choices question c_order [] db = Inr db"
| "create_choices question c_order (choice_data # rest) db =
     (case cd_choice_text choice_data of
        None \<Rightarrow> Inl (KeyError, db)
      | Some text \<Rightarrow>
          (let is_correct = (case cd_is_correct choice_data of None \<Rightarrow> False | Some b \<Rightarrow> b)
           in case Choice_objects_create question text is_correct c_order db of
                Inl err \<Rightarrow> Inl err
              | Inr (choice, db1) \<Rightarrow> create_choices question (Suc c_order) rest db1))"

text \<open>The outer loop over \<^verbatim>\<open>enumerate(questions_data)\<close>, from position \<open>order\<close> on.\<close>

fun create_questions ::
  "uuid \<Rightarrow> nat \<Rightarrow> q_data list \<Rightarrow> database \<Rightarrow> (exn \<times> database) + database" where
  "create_questions quiz order [] db = Inr db"
| "create_questions quiz order (q_data # rest) db =
     (case qd_question_text q_data of
        None \<Rightarrow> Inl (KeyError, db)
      | Some text \<Rightarrow>
          (case Question_objects_create quiz text order db of
             Inl err \<Rightarrow> Inl err
           | Inr (question, db1) \<Rightarrow>
               (let choices_data = (case qd_choices q_data of None \<Rightarrow> [] | Some cs \<Rightarrow> cs)
                in case create_choices (question_id question) 0 choices_data db1 of
                     Inl err \<Rightarrow> Inl err
                   | Inr db2 \<Rightarrow> create_questions quiz (Suc order) rest db2)))"

text \<open>The \<^verbatim>\<open>try\<close> body of \<^verbatim>\<open>create_quiz_from_parsed_data\<close>.\<close>

definition create_quiz_try ::
  "nat \<Rightarrow> string \<Rightarrow> parsed_data \<Rightarrow> int \<Rightarrow> bool \<Rightarrow> database
     \<Rightarrow> (exn \<times> database) + (Quiz \<times> database)" where
  "create_quiz_try user title parsed duration_minutes is_public db =
     (case Quiz_objects_create title user duration_minutes is_public db of
        Inl err \<Rightarrow> Inl err
      | Inr (quiz, db1) \<Rightarrow>
          (let questions_data = (case pd_questions parsed of None \<Rightarrow> [] | Some qs \<Rightarrow> qs)
           in case create_questions (quiz_id quiz) 0 questions_data db1 of
                Inl err \<Rightarrow> Inl err
              | Inr db2 \<Rightarrow> Inr (quiz, db2)))"

text \<open>
  \<^verbatim>\<open>create_quiz_from_parsed_data\<close>: the body, then the handler \<^verbatim>\<open>except Exception\<close>, which
  logs and returns \<^verbatim>\<open>None\<close>.
\<close>

definition create_quiz_from_parsed_data ::
  "nat \<Rightarrow> string \<Rightarrow> parsed_data \<Rightarrow> int \<Rightarrow> bool \<Rightarrow> database \<Rightarrow> Quiz option \<times> database" where
  "create_quiz_from_parsed_data user title parsed duration_minutes is_public db =
     (case create_quiz_try user title parsed duration_minutes is_public db of
        Inl (e, db2) \<Rightarrow> (None, db2)
      | Inr (quiz, db2) \<Rightarrow> (Some quiz, db2))"

text \<open>
  \<^verbatim>\<open>with transaction.atomic()\<close>, as the outermost block. The block's writes are undone when
  an exception leaves the block or when the transaction was marked for rollback inside
  it; they are kept when the block is left in any other way, a \<^verbatim>\<open>return\<close> included.
\<close>

definition transaction_atomic ::
  "(database \<Rightarrow> (exn + 'a) \<times> database) \<Rightarrow> database \<Rightarrow> (exn + 'a) \<times> database" where
  "transaction_atomic block db =
     (case block (db\<lparr>in_atomic_block := True, needs_rollback := False\<rparr>) of
        (Inl e, db') \<Rightarrow> (Inl e, db\<lparr>needs_rollback := False\<rparr>)
      | (Inr r, db') \<Rightarrow>
          if needs_rollback db' then (Inr r, db\<lparr>needs_rollback := False\<rparr>)
          else (Inr r, db'\<lparr>in_atomic_block := in_atomic_block db\<rparr>))"

text \<open>\<^verbatim>\<open>not image_upload.parsed_data\<close>: \<^verbatim>\<open>None\<close> and the empty object are false.\<close>

definition parsed_data_falsy :: "parsed_data \<Rightarrow> bool" where
  "parsed_data_falsy d = (pd_questions d = None \<and> pd_error d = None)"

text \<open>
  \<^verbatim>\<open>CreateQuizFromImageView.create\<close>, for an authenticated \<open>user\<close>, with the entries of
  \<^verbatim>\<open>request.data\<close> after their defaults and \<^verbatim>\<open>int()\<close> are applied.
\<close>

definition CreateQuizFromImageView_create ::
  "nat \<Rightarrow> uuid \<Rightarrow> string \<Rightarrow> int \<Rightarrow> bool \<Rightarrow> database \<Rightarrow> response \<times> database" where
  "CreateQuizFromImageView_create user image_id title duration_minutes is_public db =
     (case find (\<lambda>u. upload_id u = image_id \<and> upload_user u = user) (image_uploads db) of
        None \<Rightarrow> (Response (Error ''No ImageUpload matches the given query.'') 400, db)
      | Some image_upload \<Rightarrow>
          (case (upload_processed image_upload, upload_parsed_data image_upload) of
             (True, Some parsed) \<Rightarrow>
               if parsed_data_falsy parsed
               then (Response (Error ''Image has not been processed yet.'') 400, db)
               else
                 (case transaction_atomic
                         (\<lambda>d. case create_quiz_from_parsed_data user title parsed
                                      duration_minutes is_public d of
                                 (Some quiz, d') \<Rightarrow>
                                   (Inr (Response (QuizCreated (quiz_id quiz) (quiz_share_code quiz)) 201),
                                    d')
                               | (None, d') \<Rightarrow>
                                   (Inr (Response (Error ''Failed to create quiz'') 500), d'))
                         db of
                    (Inl e, db') \<Rightarrow> (Response (ServerError e) 400, db')
                  | (Inr r, db') \<Rightarrow> (r, db'))
           | _ \<Rightarrow> (Response (Error ''Image has not been processed yet.'') 400, db)))"


section \<open>Access to a quiz (quiz/views.py)\<close>

datatype http_method = GET | HEAD | OPTIONS | POST | PUT | PATCH | DELETE

definition SAFE_METHODS :: "http_method list" where
  "SAFE_METHODS = [GET, HEAD, OPTIONS]"

text \<open>\<^verbatim>\<open>IsCreatorOrReadOnly.has_object_permission\<close>.\<close>

definition IsCreatorOrReadOnly :: "http_method \<Rightarrow> viewer \<Rightarrow> Quiz \<Rightarrow> bool" where
  "IsCreatorOrReadOnly method v obj =
     (if method \<in> set SAFE_METHODS then True
      else Authenticated (quiz_creator obj) = v)"

text \<open>
  The framework's \<^verbatim>\<open>IsAuthenticatedOrReadOnly\<close>, the other permission class of
  \<^verbatim>\<open>QuizViewSet\<close>: a safe method, or an authenticated user.
\<close>

definition IsAuthenticatedOrReadOnly :: "http_method \<Rightarrow> viewer \<Rightarrow> bool" where
  "IsAuthenticatedOrReadOnly method v = (method \<in> set SAFE_METHODS \<or> v \<noteq> AnonymousUser)"

text \<open>\<^verbatim>\<open>quiz.shared_with.filter(id=user.id).exists()\<close>, through the \<^verbatim>\<open>QuizShare\<close> rows.\<close>

definition shared_with_exists :: "database \<Rightarrow> Quiz \<Rightarrow> nat \<Rightarrow> bool" where
  "shared_with_exists db quiz user =
     list_ex (\<lambda>s. share_quiz s = quiz_id quiz \<and> share_shared_with s = user) (shares db)"

text \<open>
  The access check at the head of \<^verbatim>\<open>JoinQuizByShareCodeView.retrieve\<close>: \<open>Some r\<close> is the
  refusal the view returns, \<open>None\<close> lets the view go on to serve the quiz.
\<close>

definition retrieve_access :: "database \<Rightarrow> Quiz \<Rightarrow> viewer \<Rightarrow> response option" where
  "retrieve_access db quiz v =
     (if \<not> quiz_is_public quiz then
        (case v of
           AnonymousUser \<Rightarrow>
             if \<not> quiz_allow_anonymous_attempts quiz
             then Some (Response (Error ''This quiz is private. Please log in to attempt it.'') 403)
             else None
         | Authenticated user \<Rightarrow>
             if quiz_creator quiz \<noteq> user \<and> \<not> shared_with_exists db quiz user
             then Some (Response (Error ''You don't have access to this quiz.'') 403)
             else None)
      else None)"

text \<open>The same check in \<^verbatim>\<open>QuizViewSet.by_share_code\<close>.\<close>

definition by_share_code_access :: "database \<Rightarrow> Quiz \<Rightarrow> viewer \<Rightarrow> response option" where
  "by_share_code_access db quiz v =
     (if \<not> quiz_is_public quiz then
        (case v of
           AnonymousUser \<Rightarrow>
             if \<not> quiz_allow_anonymous_attempts quiz
             then Some (Response (Error ''This quiz is private and requires authentication.'') 403)
             else None
         | Authenticated user \<Rightarrow>
             if quiz_creator quiz \<noteq> user \<and> \<not> shared_with_exists db quiz user
             then Some (Response (Error ''You don't have access to this quiz.'') 403)
             else None)
      else None)"

section \<open>Sharing (quiz/views.py, quiz/serializers.py)\<close>

text \<open>
  \<^verbatim>\<open>QuizViewSet.get_queryset\<close> for an authenticated user is the \<^verbatim>\<open>|\<close> of three querysets,
  the third through the \<^verbatim>\<open>QuizShare\<close> rows: one query with an outer join, so a quiz comes
  once for each of its share rows that passes the filter, or once when it has none.
\<close>

definition QuizViewSet_get_queryset :: "viewer \<Rightarrow> database \<Rightarrow> Quiz list" where
  "QuizViewSet_get_queryset v db =
     (case v of
        AnonymousUser \<Rightarrow> filter quiz_is_public (quizzes db)
      | Authenticated user \<Rightarrow>
          concat (map (\<lambda>q.
            (case filter (\<lambda>s. share_quiz s = quiz_id q) (shares db) of
               [] \<Rightarrow> if quiz_is_public q \<or> quiz_creator q = user then [q] else []
             | joined \<Rightarrow>
                 map (\<lambda>s. q)
                   (filter (\<lambda>s. quiz_is_public q \<or> quiz_creator q = user \<or> share_shared_with s = user)
                      joined)))
            (quizzes db)))"

text \<open>\<^verbatim>\<open>self.get_object()\<close> in an action of \<^verbatim>\<open>QuizViewSet\<close> under \<^verbatim>\<open>[IsAuthenticated]\<close>.\<close>

definition QuizViewSet_get_object :: "viewer \<Rightarrow> uuid \<Rightarrow> database \<Rightarrow> response + Quiz" where
  "QuizViewSet_get_object v pk db =
     (case v of
        AnonymousUser \<Rightarrow> Inl (Response NotAuthenticated 401)
      | Authenticated user \<Rightarrow>
          (case filter (\<lambda>q. quiz_id q = pk) (QuizViewSet_get_queryset v db) of
             [] \<Rightarrow> Inl (Response NotFound 404)
           | [q] \<Rightarrow> Inr q
           | _ \<Rightarrow> Inl (Response (ServerError MultipleObjectsReturned) 500)))"

text \<open>
  \<^verbatim>\<open>QuizShare.objects.get_or_create(quiz=, shared_with=, defaults={permission_type,
  shared_by})\<close>; \<open>now\<close> is the clock reading stored as \<^verbatim>\<open>shared_at\<close> on a new row.
\<close>

definition QuizShare_get_or_create ::
  "datetime \<Rightarrow> uuid \<Rightarrow> nat \<Rightarrow> string \<Rightarrow> nat \<Rightarrow> database \<Rightarrow> exn + (QuizShare \<times> bool) \<times> database" where
  "QuizShare_get_or_create now quiz recipient permission_type shared_by db =
     (case filter (\<lambda>s. share_quiz s = quiz \<and> share_shared_with s = recipient) (shares db) of
        [] \<Rightarrow>
          (let (new_id, db1) = uuid4 db;
               share = \<lparr>share_id = new_id, share_quiz = quiz, share_shared_by = shared_by,
                        share_shared_with = recipient, share_shared_at = now,
                        share_permission_type = permission_type\<rparr>
           in if share_accepted db1 share
              then Inr ((share, True), db1\<lparr>shares := shares db1 @ [share]\<rparr>)
              else Inl DatabaseError)
      | [share] \<Rightarrow> Inr ((share, False), db)
      | _ \<Rightarrow> Inl MultipleObjectsReturned)"

text \<open>
  \<^verbatim>\<open>share.save()\<close> on a row read from the table: update the row with this key, unless
  the backend refuses the new row.
\<close>

definition save_share :: "QuizShare \<Rightarrow> database \<Rightarrow> exn + database" where
  "save_share s db =
     (if share_accepted db s
      then Inr (db\<lparr>shares := map (\<lambda>x. if share_id x = share_id s then s else x) (shares db)\<rparr>)
      else Inl DatabaseError)"

text \<open>
  \<^verbatim>\<open>QuizViewSet.share\<close>. \<open>data_shared_with\<close> and \<open>data_permission_type\<close> are the entries
  \<^verbatim>\<open>shared_with\<close> and \<^verbatim>\<open>permission_type\<close> of \<^verbatim>\<open>request.data\<close>, \<open>None\<close> when missing.
\<close>

definition QuizViewSet_share ::
  "datetime \<Rightarrow> viewer \<Rightarrow> uuid \<Rightarrow> string option \<Rightarrow> string option \<Rightarrow> database
     \<Rightarrow> response \<times> database" where
  "QuizViewSet_share now v pk data_shared_with data_permission_type db =
     (case v of
        AnonymousUser \<Rightarrow> (Response NotAuthenticated 401, db)
      | Authenticated request_user \<Rightarrow>
          (case QuizViewSet_get_object v pk db of
             Inl r \<Rightarrow> (r, db)
           | Inr quiz \<Rightarrow>
               if quiz_creator quiz \<noteq> request_user
                  \<and> \<not> list_ex (\<lambda>s. share_quiz s = quiz_id quiz \<and> share_shared_with s = request_user
                                    \<and> share_permission_type s = ''edit'') (shares db)
               then (Response (Error ''You don't have permission to share this quiz.'') 403, db)
               else
                 (let permission_type =
                        (case data_permission_type of None \<Rightarrow> ''attempt'' | Some p \<Rightarrow> p)
                  in case data_shared_with of
                       None \<Rightarrow> (Response (ServerError TypeError) 500, db)
                     | Some recipient_identifier \<Rightarrow>
                         (case (if CHR ''@'' \<in> set recipient_identifier
                                then filter (\<lambda>u. user_email u = recipient_identifier) (users db)
                                else filter (\<lambda>u. user_username u = recipient_identifier) (users db)) of
                            [] \<Rightarrow>
                              (Response (Error (''User with identifier '' @ [CHR 0x27]
                                                @ recipient_identifier @ [CHR 0x27]
                                                @ '' does not exist.'')) 400, db)
                          | [recipient] \<Rightarrow>
                              (case QuizShare_get_or_create now (quiz_id quiz) (user_id recipient)
                                      permission_type request_user db of
                                 Inl e \<Rightarrow> (Response (ServerError e) 500, db)
                               | Inr ((shr, created), db1) \<Rightarrow>
                                   if \<not> created then
                                     (let shr' = shr\<lparr>share_permission_type := permission_type\<rparr>
                                      in case save_share shr' db1 of
                                           Inl e \<Rightarrow> (Response (ServerError e) 500, db1)
                                         | Inr db2 \<Rightarrow> (Response (QuizShareData shr') 200, db2))
                                   else (Response (QuizShareData shr) 200, db1))
                          | _ \<Rightarrow> (Response (ServerError MultipleObjectsReturned) 500, db)))))"

text \<open>
  \<^verbatim>\<open>QuizShareSerializer.validate\<close> and \<^verbatim>\<open>create\<close>, the path of \<^verbatim>\<open>QuizShareViewSet\<close>:
  \<open>data_quiz\<close> and \<open>data_shared_with\<close> are the validated fields, resolved to rows.
\<close>

definition QuizShareSerializer_validate ::
  "nat \<Rightarrow> Quiz \<Rightarrow> nat \<Rightarrow> database \<Rightarrow> string + unit" where
  "QuizShareSerializer_validate request_user data_quiz data_shared_with db =
     (if data_shared_with = request_user
      then Inl ''You cannot share a quiz with yourself.''
      else if quiz_creator data_quiz \<noteq> request_user then
        (let share_exists =
               list_ex (\<lambda>s. share_quiz s = quiz_id data_quiz \<and> share_shared_with s = request_user
                             \<and> share_permission_type s = ''edit'') (shares db)
         in if \<not> share_exists
            then Inl ''You don't have permission to share this quiz.''
            else Inr ())
      else Inr ())"

section \<open>Sequences of submissions\<close>

text \<open>
  The constraints the database keeps on \<^verbatim>\<open>UserAnswer\<close>: the primary key, every key drawn
  from the supply, and \<^verbatim>\<open>unique_together = ['session', 'question']\<close>.
\<close>

definition UserAnswer_constraints :: "database \<Rightarrow> bool" where
  "UserAnswer_constraints db =
     (distinct (map answer_id (answers db))
      \<and> list_all (\<lambda>a. answer_id a < next_uuid db) (answers db)
      \<and> distinct (map (\<lambda>a. (answer_session a, answer_question a)) (answers db)))"

text \<open>The answers stored for one (session, question) pair.\<close>

definition answers_for :: "database \<Rightarrow> uuid \<Rightarrow> uuid \<Rightarrow> UserAnswer list" where
  "answers_for db sid qid =
     filter (\<lambda>a. answer_session a = sid \<and> answer_question a = qid) (answers db)"

text \<open>One call of \<^verbatim>\<open>submit_answer\<close>, and a run of calls one after the other.\<close>

record submit_request =
  req_t_check :: datetime
  req_t_write :: datetime
  req_viewer :: viewer
  req_pk :: uuid
  req_question_id :: "uuid option"
  req_choice_id :: "uuid option"

definition submit :: "submit_request \<Rightarrow> database \<Rightarrow> response \<times> database" where
  "submit r db =
     QuizSessionViewSet_submit_answer (req_t_check r) (req_t_write r) (req_viewer r) (req_pk r)
       (req_question_id r) (req_choice_id r) db"

text \<open>The call stored an answer: the response is the serialised \<^verbatim>\<open>UserAnswer\<close>.\<close>

definition answer_accepted :: "response \<Rightarrow> bool" where
  "answer_accepted r = (case r of Response (UserAnswerData a) st \<Rightarrow> True | _ \<Rightarrow> False)"

fun submit_all :: "submit_request list \<Rightarrow> database \<Rightarrow> database" where
  "submit_all [] db = db"
| "submit_all (r # rs) db = submit_all rs (snd (submit r db))"

text \<open>
  The choice of the last accepted submission for the pair \<open>(sid, qid)\<close> in a run, \<open>acc\<close>
  when the run accepts none.
\<close>

fun last_accepted ::
  "uuid \<Rightarrow> uuid \<Rightarrow> submit_request list \<Rightarrow> database \<Rightarrow> uuid option \<Rightarrow> uuid option" where
  "last_accepted sid qid [] db acc = acc"
| "last_accepted sid qid (r # rs) db acc =
     (let (resp, db') = submit r db
      in last_accepted sid qid rs db'
           (if answer_accepted resp \<and> req_pk r = sid \<and> req_question_id r = Some qid
            then req_choice_id r else acc))"

section \<open>Sequences of share operations\<close>

text \<open>The shares stored for one (quiz, grantee) pair.\<close>

definition shares_for :: "database \<Rightarrow> uuid \<Rightarrow> nat \<Rightarrow> QuizShare list" where
  "shares_for db quiz grantee =
     filter (\<lambda>s. share_quiz s = quiz \<and> share_shared_with s = grantee) (shares db)"

text \<open>One call of \<^verbatim>\<open>QuizViewSet.share\<close>, and a run of calls one after the other.\<close>

record share_request =
  sreq_now :: datetime
  sreq_viewer :: viewer
  sreq_pk :: uuid
  sreq_shared_with :: "string option"
  sreq_permission_type :: "string option"

definition share_call :: "share_request \<Rightarrow> database \<Rightarrow> response \<times> database" where
  "share_call r db =
     QuizViewSet_share (sreq_now r) (sreq_viewer r) (sreq_pk r) (sreq_shared_with r)
       (sreq_permission_type r) db"

fun share_all :: "share_request list \<Rightarrow> database \<Rightarrow> database" where
  "share_all [] db = db"
| "share_all (r # rs) db = share_all rs (snd (share_call r db))"

section \<open>Example data\<close>

text \<open>
  A private quiz of alice (user 1) with two questions, Q1 with the correct choice C1b and
  Q2 with the correct choice C2a, and a running session of bob (user 2), who answered
  Q1 with C1b and Q2 with C2b. The backend has the integer range of SQLite and refuses
  nothing else.
\<close>

definition example_quiz :: Quiz where
  "example_quiz = \<lparr>quiz_id = 10, quiz_title = ''Capitals'', quiz_creator = 1,
     quiz_duration_minutes = 10, quiz_is_public = False, quiz_share_code = 11,
     quiz_allow_anonymous_attempts = False\<rparr>"

definition example_session :: QuizSession where
  "example_session = \<lparr>session_id = 20, session_quiz = 10, session_user = 2,
     session_started_at = 0, session_completed_at = None, session_score = None\<rparr>"

definition example_db :: database where
  "example_db = \<lparr>
     users = [\<lparr>user_id = 1, user_username = ''alice'', user_email = ''alice@example.org''\<rparr>,
              \<lparr>user_id = 2, user_username = ''bob'', user_email = ''bob@example.org''\<rparr>,
              \<lparr>user_id = 3, user_username = ''carol'', user_email = ''carol@example.org''\<rparr>],
     quizzes = [example_quiz],
     questions = [\<lparr>question_id = 12, question_quiz = 10, question_text = ''Q1'', question_order = 0\<rparr>,
                  \<lparr>question_id = 15, question_quiz = 10, question_text = ''Q2'', question_order = 1\<rparr>],
     choices = [\<lparr>choice_id = 13, choice_question = 12, choice_text = ''C1a'',
                  choice_is_correct = False, choice_order = 0\<rparr>,
                \<lparr>choice_id = 14, choice_question = 12, choice_text = ''C1b'',
                  choice_is_correct = True, choice_order = 1\<rparr>,
                \<lparr>choice_id = 16, choice_question = 15, choice_text = ''C2a'',
                  choice_is_correct = True, choice_order = 0\<rparr>,
                \<lparr>choice_id = 17, choice_question = 15, choice_text = ''C2b'',
                  choice_is_correct = False, choice_order = 1\<rparr>],
     image_uploads = [],
     sessions = [example_session],
     answers = [\<lparr>answer_id = 21, answer_session = 20, answer_question = 12,
                  answer_selected_choice = 14, answer_answered_at = 60\<rparr>,
                \<lparr>answer_id = 22, answer_session = 20, answer_question = 15,
                  answer_selected_choice = 17, answer_answered_at = 90\<rparr>],
     shares = [],
     next_uuid = 23,
     in_atomic_block = False,
     needs_rollback = False,
     quiz_accepted = (\<lambda>q. quiz_duration_minutes q < 2 ^ 63),
     question_accepted = (\<lambda>q. True),
     choice_accepted = (\<lambda>c. True),
     share_accepted = (\<lambda>s. True)\<rparr>"

text \<open>Bob answers Q2 again, first with C2b, then with C2a.\<close>

definition example_requests :: "submit_request list" where
  "example_requests =
     [\<lparr>req_t_check = 100, req_t_write = 101, req_viewer = Authenticated 2, req_pk = 20,
        req_question_id = Some 15, req_choice_id = Some 17\<rparr>,
      \<lparr>req_t_check = 110, req_t_write = 111, req_viewer = Authenticated 2, req_pk = 20,
        req_question_id = Some 15, req_choice_id = Some 16\<rparr>]"

text \<open>
  An extraction result whose first question has no \<^verbatim>\<open>choices\<close> key and whose second
  question has a choice without \<^verbatim>\<open>is_correct\<close>.
\<close>

definition example_parsed :: parsed_data where
  "example_parsed = \<lparr>pd_questions = Some
      [\<lparr>qd_question_text = Some ''Q1'', qd_choices = None\<rparr>,
       \<lparr>qd_question_text = Some ''Q2'',
        qd_choices = Some [\<lparr>cd_choice_text = Some ''A'', cd_is_correct = None\<rparr>,
                           \<lparr>cd_choice_text = Some ''B'', cd_is_correct = Some True\<rparr>]\<rparr>],
     pd_error = None\<rparr>"

text \<open>
  A processed upload of alice whose extraction result has a choice record without
  \<^verbatim>\<open>choice_text\<close>, after a choice record that is complete.
\<close>

definition malformed_parsed :: parsed_data where
  "malformed_parsed = \<lparr>pd_questions = Some
      [\<lparr>qd_question_text = Some ''Q'',
        qd_choices = Some [\<lparr>cd_choice_text = Some ''A'', cd_is_correct = Some True\<rparr>,
                           \<lparr>cd_choice_text = None, cd_is_correct = Some False\<rparr>]\<rparr>],
     pd_error = None\<rparr>"

definition upload_db :: database where
  "upload_db = example_db\<lparr>image_uploads :=
     [\<lparr>upload_id = 3, upload_user = 1, upload_processed = True,
       upload_parsed_data = Some malformed_parsed\<rparr>]\<rparr>"


text \<open>
  The quiz with twenty questions, each with one correct choice, and bob's session with
  eleven of them answered correctly.
\<close>

definition rounding_db :: database where
  "rounding_db = example_db\<lparr>
     questions := map (\<lambda>i. \<lparr>question_id = 100 + i, question_quiz = 10, question_text = ''Q'',
                              question_order = i\<rparr>) [0..<20],
     choices := map (\<lambda>i. \<lparr>choice_id = 200 + i, choice_question = 100 + i, choice_text = ''C'',
                            choice_is_correct = True, choice_order = 0\<rparr>) [0..<20],
     answers := map (\<lambda>i. \<lparr>answer_id = 300 + i, answer_session = 20, answer_question = 100 + i,
                            answer_selected_choice = 200 + i, answer_answered_at = 60\<rparr>) [0..<11],
     next_uuid := 400\<rparr>"

text \<open>
  Alice shares her quiz with bob and with carol, both with permission \<^verbatim>\<open>view\<close>, and then
  with bob again with permission \<^verbatim>\<open>edit\<close>; and the tables after the first two calls.
\<close>

definition share_with_bob_view :: share_request where
  "share_with_bob_view = \<lparr>sreq_now = 200, sreq_viewer = Authenticated 1, sreq_pk = 10,
     sreq_shared_with = Some ''bob'', sreq_permission_type = Some ''view''\<rparr>"

definition share_with_carol_view :: share_request where
  "share_with_carol_view = \<lparr>sreq_now = 210, sreq_viewer = Authenticated 1, sreq_pk = 10,
     sreq_shared_with = Some ''carol@example.org'', sreq_permission_type = Some ''view''\<rparr>"

definition share_with_bob_edit :: share_request where
  "share_with_bob_edit = \<lparr>sreq_now = 220, sreq_viewer = Authenticated 1, sreq_pk = 10,
     sreq_shared_with = Some ''bob'', sreq_permission_type = Some ''edit''\<rparr>"

definition two_shares_db :: database where
  "two_shares_db = example_db\<lparr>
     next_uuid := 25,
     shares := [\<lparr>share_id = 23, share_quiz = 10, share_shared_by = 1, share_shared_with = 2,
                  share_shared_at = 200, share_permission_type = ''view''\<rparr>,
                \<lparr>share_id = 24, share_quiz = 10, share_shared_by = 1, share_shared_with = 3,
                  share_shared_at = 210, share_permission_type = ''view''\<rparr>]\<rparr>"


section \<open>Facts about the float operations\<close>

lemmas double_eval = float_mul_int_def true_divide_def round_to_double_def at_least_pow2_def
  round_half_even_def bit_length.simps Let_def

lemma bit_length_bounds:
  "0 < n \<Longrightarrow> 2 ^ (bit_length n - 1) \<le> n \<and> n < 2 ^ bit_length n"
proof (induction n rule: bit_length.induct)
  case (1 n)
  show ?case
  proof (cases "n div 2 = 0")
    case True
    with "1.prems" have "n = 1" by presburger
    then show ?thesis by (simp add: bit_length.simps)
  next
    case False
    then have h: "0 < n div 2" by simp
    from "1.IH" [OF _ h] "1.prems"
    have ih: "2 ^ (bit_length (n div 2) - 1) \<le> n div 2" "n div 2 < 2 ^ bit_length (n div 2)"
      by simp_all
    have bl: "bit_length n = Suc (bit_length (n div 2))"
      using "1.prems" by (subst bit_length.simps) simp
    have pos: "0 < bit_length (n div 2)"
      using h by (subst bit_length.simps) simp
    then obtain k where k: "bit_length (n div 2) = Suc k" by (cases "bit_length (n div 2)") auto
    from ih(1) k have "2 * 2 ^ k \<le> 2 * (n div 2)" by simp
    also have "\<dots> \<le> n" by simp
    finally have lo: "2 ^ (bit_length n - 1) \<le> n" by (simp add: bl k)
    from ih(2) have "Suc (n div 2) \<le> 2 ^ bit_length (n div 2)" by simp
    then have "2 * Suc (n div 2) \<le> 2 * 2 ^ bit_length (n div 2)" by simp
    moreover have "n < 2 * Suc (n div 2)" by presburger
    ultimately have "n < 2 ^ bit_length n" by (simp add: bl)
    with lo show ?thesis by simp
  qed
qed

lemma round_half_even_error:
  assumes "0 < b"
  shows "\<bar>of_nat (round_half_even a b) - (of_nat a / of_nat b :: rat)\<bar> \<le> 1 / 2"
proof -
  define d where "d = a div b"
  define r where "r = a mod b"
  have a: "a = d * b + r" by (simp add: d_def r_def)
  have rb: "r < b" using assms by (simp add: r_def)
  have bpos: "(0::rat) < of_nat b" using assms by simp
  have q: "(of_nat a / of_nat b :: rat) = of_nat d + of_nat r / of_nat b"
    using assms by (simp add: a add_divide_distrib)
  have r0: "(0::rat) \<le> of_nat r / of_nat b" by simp
  have r1: "(of_nat r / of_nat b :: rat) < 1" using rb bpos by simp
  consider (lo) "2 * r < b" | (hi) "b < 2 * r" | (tie) "2 * r = b" by linarith
  then show ?thesis
  proof cases
    case lo
    then have m: "round_half_even a b = d" by (simp add: round_half_even_def d_def r_def Let_def)
    from lo have "(of_nat (2 * r) :: rat) < of_nat b" by (simp only: of_nat_less_iff)
    then have "(of_nat r / of_nat b :: rat) < 1 / 2" using bpos by (simp add: field_simps)
    with r0 show ?thesis by (simp add: m q)
  next
    case hi
    then have m: "round_half_even a b = Suc d" by (simp add: round_half_even_def d_def r_def Let_def)
    from hi have "(of_nat b :: rat) < of_nat (2 * r)" by (simp only: of_nat_less_iff)
    then have "(1 / 2 :: rat) < of_nat r / of_nat b" using bpos by (simp add: field_simps)
    with r1 show ?thesis by (simp add: m q)
  next
    case tie
    then have "(of_nat b :: rat) = of_nat (2 * r)" by simp
    then have h: "(of_nat r / of_nat b :: rat) = 1 / 2" using bpos by (simp add: field_simps)
    have q': "(of_nat a / of_nat b :: rat) = of_nat d + 1 / 2" by (simp only: q h)
    have "round_half_even a b = d \<or> round_half_even a b = Suc d"
      by (simp add: round_half_even_def d_def r_def Let_def)
    then show ?thesis
    proof
      assume "round_half_even a b = d"
      then show ?thesis by (simp add: q')
    next
      assume "round_half_even a b = Suc d"
      then show ?thesis by (simp add: q')
    qed
  qed
qed

lemma double_val_powi: "double_val (Double m e) = of_nat m * 2 powi e"
  by (simp add: double_val_def power_int_def field_simps)


lemma at_least_pow2_sound:
  assumes "0 < q" and "at_least_pow2 p q e"
  shows "(2::rat) powi e \<le> of_nat p / of_nat q"
proof (cases "0 \<le> e")
  case True
  with assms(2) have "q * 2 ^ nat e \<le> p" by (simp add: at_least_pow2_def)
  then have "(of_nat (q * 2 ^ nat e) :: rat) \<le> of_nat p" by (simp only: of_nat_le_iff)
  then have "(2::rat) ^ nat e \<le> of_nat p / of_nat q"
    using assms(1) by (simp add: pos_le_divide_eq mult.commute)
  with True show ?thesis by (simp add: power_int_def)
next
  case False
  with assms(2) have "q \<le> p * 2 ^ nat (- e)" by (simp add: at_least_pow2_def)
  then have "(of_nat q :: rat) \<le> of_nat (p * 2 ^ nat (- e))" by (simp only: of_nat_le_iff)
  then have "(1::rat) / 2 ^ nat (- e) \<le> of_nat p / of_nat q"
    using assms(1) by (simp add: field_simps)
  with False show ?thesis by (simp add: power_int_def field_simps)
qed

lemma bit_length_quotient_lower:
  assumes "0 < p" and "0 < q"
  shows "(2::rat) powi (int (bit_length p) - int (bit_length q) - 1) \<le> of_nat p / of_nat q"
proof -
  from bit_length_bounds [OF assms(1)] have lo: "2 ^ (bit_length p - 1) \<le> p" by simp
  from bit_length_bounds [OF assms(2)] have hi: "q \<le> 2 ^ bit_length q" by simp
  have pos: "0 < bit_length p" using assms(1) by (subst bit_length.simps) simp
  from lo have l: "(2::rat) ^ (bit_length p - 1) \<le> of_nat p"
    by (metis of_nat_le_iff of_nat_numeral of_nat_power)
  from hi have h: "(of_nat q :: rat) \<le> 2 ^ bit_length q"
    by (metis of_nat_le_iff of_nat_numeral of_nat_power)
  have qpos: "(0::rat) < of_nat q" using assms(2) by simp
  have "(2::rat) powi (int (bit_length p) - int (bit_length q) - 1)
        = 2 powi (int (bit_length p - 1) - int (bit_length q))"
    using pos by (simp add: of_nat_diff algebra_simps)
  also have "\<dots> = 2 ^ (bit_length p - 1) / 2 ^ bit_length q"
    by (simp add: power_int_diff)
  also have "\<dots> \<le> of_nat p / 2 ^ bit_length q"
    using l by (simp add: divide_right_mono)
  also have "\<dots> \<le> of_nat p / of_nat q"
    using h qpos by (simp add: divide_left_mono)
  finally show ?thesis .
qed

lemma round_to_double_error:
  assumes "0 < q"
  shows "\<bar>double_val (round_to_double p q) - of_nat p / of_nat q\<bar>
         \<le> (of_nat p / of_nat q) / 2 ^ 53"
proof (cases "p = 0")
  case True
  then show ?thesis by (simp add: round_to_double_def double_val_def)
next
  case False
  then have ppos: "0 < p" by simp
  define x :: rat where "x = of_nat p / of_nat q"
  define e1 where "e1 = int (bit_length p) - int (bit_length q)"
  define E where "E = (if at_least_pow2 p q e1 then e1 else e1 - 1)"
  define e where "e = E - 52"
  define a where "a = (if 0 \<le> e then p else p * 2 ^ nat (- e))"
  define b where "b = (if 0 \<le> e then q * 2 ^ nat e else q)"
  define m where "m = round_half_even a b"
  have r: "round_to_double p q = (if m = 2 ^ 53 then Double (2 ^ 52) (e + 1) else Double m e)"
    using False
    unfolding round_to_double_def Let_def m_def a_def b_def e_def E_def e1_def by simp
  have v: "double_val (round_to_double p q) = of_nat m * 2 powi e"
  proof (cases "m = 2 ^ 53")
    case True
    have "(2::rat) powi (e + 1) = 2 powi e * 2" by (simp add: power_int_add)
    with True show ?thesis by (simp add: r double_val_powi)
  next
    case False
    then show ?thesis by (simp add: r double_val_powi)
  qed
  have lower: "2 powi E \<le> x"
  proof (cases "at_least_pow2 p q e1")
    case True
    with at_least_pow2_sound [OF assms True] show ?thesis by (simp add: E_def x_def)
  next
    case False
    with bit_length_quotient_lower [OF ppos assms] show ?thesis
      by (simp add: E_def x_def e1_def)
  qed
  have bpos: "0 < b" using assms by (simp add: b_def)
  have scaled: "(of_nat a / of_nat b :: rat) = x / 2 powi e"
  proof (cases "0 \<le> e")
    case True
    then show ?thesis by (simp add: a_def b_def x_def power_int_def)
  next
    case False
    then show ?thesis by (simp add: a_def b_def x_def power_int_def field_simps)
  qed
  have pe: "(0::rat) < 2 powi e" by (simp add: zero_less_power_int)
  from round_half_even_error [OF bpos, of a]
  have "\<bar>of_nat m - x / 2 powi e\<bar> \<le> 1 / 2" by (simp add: m_def scaled)
  then have "\<bar>of_nat m - x / 2 powi e\<bar> * 2 powi e \<le> 1 / 2 * 2 powi e"
    using pe by (simp add: mult_right_mono)
  moreover have "\<bar>of_nat m - x / 2 powi e\<bar> * 2 powi e = \<bar>of_nat m * 2 powi e - x\<bar>"
  proof -
    have "\<bar>of_nat m - x / 2 powi e\<bar> * 2 powi e = \<bar>(of_nat m - x / 2 powi e) * 2 powi e\<bar>"
      using pe by (simp add: abs_mult)
    also have "(of_nat m - x / 2 powi e) * 2 powi e = of_nat m * 2 powi e - x"
      using pe by (simp add: field_simps)
    finally show ?thesis .
  qed
  moreover have "1 / 2 * (2::rat) powi e = 2 powi E / 2 ^ 53"
  proof -
    have "(2::rat) powi E = 2 powi (e + 52)" by (simp add: e_def)
    also have "\<dots> = 2 powi e * 2 ^ 52" by (simp add: power_int_add)
    finally show ?thesis by simp
  qed
  ultimately have "\<bar>of_nat m * 2 powi e - x\<bar> \<le> 2 powi E / 2 ^ 53" by simp
  also have "\<dots> \<le> x / 2 ^ 53" using lower by (simp add: divide_right_mono)
  finally show ?thesis by (simp add: v x_def)
qed


lemma float_mul_int_error:
  "\<bar>double_val (float_mul_int d k) - double_val d * of_nat k\<bar>
   \<le> double_val d * of_nat k / 2 ^ 53"
proof (cases d)
  case (Double m e)
  show ?thesis
  proof (cases "0 \<le> e")
    case True
    have eq: "(of_nat (m * k * 2 ^ nat e) / of_nat 1 :: rat) = double_val d * of_nat k"
      using True by (simp add: Double double_val_def)
    have f: "float_mul_int d k = round_to_double (m * k * 2 ^ nat e) 1"
      using True by (simp add: Double float_mul_int_def)
    have "\<bar>double_val (round_to_double (m * k * 2 ^ nat e) 1)
            - of_nat (m * k * 2 ^ nat e) / of_nat 1\<bar>
          \<le> (of_nat (m * k * 2 ^ nat e) / of_nat 1) / 2 ^ 53"
      by (rule round_to_double_error) simp
    then show ?thesis unfolding eq f .
  next
    case False
    have eq: "(of_nat (m * k) / of_nat (2 ^ nat (- e)) :: rat) = double_val d * of_nat k"
      using False by (simp add: Double double_val_def)
    have f: "float_mul_int d k = round_to_double (m * k) (2 ^ nat (- e))"
      using False by (simp add: Double float_mul_int_def)
    have "\<bar>double_val (round_to_double (m * k) (2 ^ nat (- e)))
            - of_nat (m * k) / of_nat (2 ^ nat (- e))\<bar>
          \<le> (of_nat (m * k) / of_nat (2 ^ nat (- e))) / 2 ^ 53"
      by (rule round_to_double_error) simp
    then show ?thesis unfolding eq f .
  qed
qed

lemma percentage_error:
  assumes "0 < n"
  shows "\<bar>double_val (float_mul_int (true_divide k n) 100) - 100 * of_nat k / of_nat n\<bar>
         \<le> (100 * of_nat k / of_nat n) / 2 ^ 51"
proof -
  define x :: rat where "x = of_nat k / of_nat n"
  define y where "y = double_val (true_divide k n)"
  define z where "z = double_val (float_mul_int (true_divide k n) 100)"
  have x0: "0 \<le> x" by (simp add: x_def)
  have "\<bar>double_val (round_to_double k n) - of_nat k / of_nat n\<bar>
        \<le> (of_nat k / of_nat n) / 2 ^ 53"
    using assms by (rule round_to_double_error)
  then have yx: "\<bar>y - x\<bar> \<le> x / 2 ^ 53" by (simp only: y_def x_def true_divide_def)
  have "\<bar>double_val (float_mul_int (true_divide k n) 100) - double_val (true_divide k n) * of_nat 100\<bar>
        \<le> double_val (true_divide k n) * of_nat 100 / 2 ^ 53"
    by (rule float_mul_int_error)
  then have zy: "\<bar>z - y * 100\<bar> \<le> y * 100 / 2 ^ 53" by (simp only: z_def y_def of_nat_numeral)
  have small: "x / 2 ^ 53 \<le> x" using x0 by (simp add: field_simps)
  from yx small have y2: "y \<le> 2 * x" by linarith
  have b1: "y * 100 / 2 ^ 53 \<le> 200 * (x / 2 ^ 53)" using y2 by (simp add: field_simps)
  from zy b1 have z1: "z - y * 100 \<le> 200 * (x / 2 ^ 53)" "y * 100 - z \<le> 200 * (x / 2 ^ 53)"
    by linarith+
  from yx have y1: "y - x \<le> x / 2 ^ 53" "x - y \<le> x / 2 ^ 53" by linarith+
  from z1 y1 have "\<bar>z - 100 * x\<bar> \<le> 200 * (x / 2 ^ 53) + 100 * (x / 2 ^ 53)" by linarith
  also have "\<dots> \<le> 100 * x / 2 ^ 51" using x0 by (simp add: field_simps)
  finally have "\<bar>z - 100 * x\<bar> \<le> 100 * x / 2 ^ 51" .
  then show ?thesis by (simp only: z_def x_def times_divide_eq_right)
qed


section \<open>Facts about the tables\<close>

lemma find_map_replace:
  "list_ex (\<lambda>x. session_id x = session_id s) xs \<Longrightarrow>
   find (\<lambda>x. session_id x = session_id s) (map (\<lambda>x. if session_id x = session_id s then s else x) xs) = Some s"
  by (induction xs) auto

lemma find_append_new:
  "\<not> list_ex P xs \<Longrightarrow> P s \<Longrightarrow> find P (xs @ [s]) = Some s"
  by (induction xs) auto

lemma find_save_session:
  "find (\<lambda>x. session_id x = session_id s) (sessions (save_session s db)) = Some s"
  by (simp add: save_session_def find_map_replace find_append_new)

lemma get_object_session_Inr:
  assumes "QuizSessionViewSet_get_object v pk db = Inr s"
  shows "s \<in> set (sessions db) \<and> session_id s = pk"
proof -
  from assms obtain user where v: "v = Authenticated user"
    by (cases v) (auto simp: QuizSessionViewSet_get_object_def)
  from assms v have "filter (\<lambda>s. session_id s = pk) (QuizSessionViewSet_get_queryset user db) = [s]"
    by (auto simp: QuizSessionViewSet_get_object_def split: list.splits sum.splits bool.splits)
  then have "s \<in> set (filter (\<lambda>s. session_id s = pk) (QuizSessionViewSet_get_queryset user db))"
    by simp
  then show ?thesis by (auto simp: QuizSessionViewSet_get_queryset_def)
qed

lemma example_get_object:
  "QuizSessionViewSet_get_object (Authenticated 2) 20 example_db = Inr example_session"
  by (simp add: QuizSessionViewSet_get_object_def QuizSessionViewSet_get_queryset_def
      IsQuizCreatorOrParticipant_def get_quiz_def example_db_def example_session_def example_quiz_def)

lemma save_session_existing:
  "s \<in> set (sessions db) \<Longrightarrow> session_id s' = session_id s \<Longrightarrow>
   save_session s' db = db\<lparr>sessions := map (\<lambda>x. if session_id x = session_id s' then s' else x) (sessions db)\<rparr>"
  by (auto simp: save_session_def list_ex_iff)

lemma get_object_session_cases:
  assumes "QuizSessionViewSet_get_object v pk db = Inr s"
  obtains user q where "v = Authenticated user"
    and "filter (\<lambda>s. session_id s = pk) (QuizSessionViewSet_get_queryset user db) = [s]"
    and "get_quiz db (session_quiz s) = Some q"
    and "quiz_creator q = user \<or> session_user s = user"
proof -
  from assms obtain user where v: "v = Authenticated user"
    by (cases v) (auto simp: QuizSessionViewSet_get_object_def)
  from assms v have f: "filter (\<lambda>s. session_id s = pk) (QuizSessionViewSet_get_queryset user db) = [s]"
    by (auto simp: QuizSessionViewSet_get_object_def split: list.splits sum.splits bool.splits)
  from assms v f have "IsQuizCreatorOrParticipant user db s = Inr True"
    by (auto simp: QuizSessionViewSet_get_object_def split: sum.splits bool.splits)
  then obtain q where "get_quiz db (session_quiz s) = Some q" "quiz_creator q = user \<or> session_user s = user"
    by (auto simp: IsQuizCreatorOrParticipant_def split: option.splits if_splits)
  with v f show ?thesis using that by blast
qed

lemma distinct_key_eq:
  "distinct (map f xs) \<Longrightarrow> x \<in> set xs \<Longrightarrow> y \<in> set xs \<Longrightarrow> f x = f y \<Longrightarrow> x = y"
  by (meson distinct_map inj_onD)

lemma get_object_after_save:
  assumes g: "QuizSessionViewSet_get_object v pk db = Inr s"
    and d: "distinct (map session_id (sessions db))"
    and i: "session_id s' = session_id s"
    and q: "session_quiz s' = session_quiz s"
    and u: "session_user s' = session_user s"
  shows "QuizSessionViewSet_get_object v pk (save_session s' db) = Inr s'"
proof -
  from g obtain user qz where v: "v = Authenticated user"
    and f: "filter (\<lambda>s. session_id s = pk) (QuizSessionViewSet_get_queryset user db) = [s]"
    and gq: "get_quiz db (session_quiz s) = Some qz"
    and p: "quiz_creator qz = user \<or> session_user s = user"
    by (rule get_object_session_cases)
  from g have mem: "s \<in> set (sessions db)" and pk: "session_id s = pk"
    by (simp_all add: get_object_session_Inr)
  let ?upd = "\<lambda>x. if session_id x = session_id s' then s' else x"
  let ?c = "\<lambda>s. session_user s = user
                \<or> list_ex (\<lambda>q. quiz_id q = session_quiz s \<and> quiz_creator q = user) (quizzes db)"
  have db': "save_session s' db = db\<lparr>sessions := map ?upd (sessions db)\<rparr>"
    using save_session_existing [OF mem i] .
  have f0: "filter (\<lambda>x. session_id x = pk \<and> ?c x) (sessions db) = [s]"
    using f by (simp add: QuizSessionViewSet_get_queryset_def conj_commute)
  have key: "filter (\<lambda>x. session_id x = pk \<and> ?c x) (map ?upd xs)
           = map ?upd (filter (\<lambda>x. session_id x = pk \<and> ?c x) xs)"
    if "\<forall>x \<in> set xs. session_id x = pk \<longrightarrow> x = s" for xs
    using that i q u pk by (induction xs) auto
  have same: "\<forall>x \<in> set (sessions db). session_id x = pk \<longrightarrow> x = s"
    using distinct_key_eq [OF d _ mem] pk by auto
  have "filter (\<lambda>x. session_id x = pk \<and> ?c x) (map ?upd (sessions db)) = [s']"
    using key [OF same] f0 i by simp
  then have f1: "filter (\<lambda>s. session_id s = pk) (QuizSessionViewSet_get_queryset user (save_session s' db)) = [s']"
    by (simp add: db' QuizSessionViewSet_get_queryset_def conj_commute)
  have "IsQuizCreatorOrParticipant user (save_session s' db) s' = Inr True"
    using gq p q u by (auto simp: IsQuizCreatorOrParticipant_def get_quiz_def db')
  with f1 v show ?thesis by (simp add: QuizSessionViewSet_get_object_def)
qed

lemma get_object_session_Inl:
  "QuizSessionViewSet_get_object v pk db = Inl (Response b st) \<Longrightarrow> st \<noteq> 200"
  by (auto simp: QuizSessionViewSet_get_object_def
      split: viewer.splits list.splits sum.splits bool.splits)

lemma example_counts:
  "total_questions_count example_db (example_session\<lparr>session_completed_at := c\<rparr>) = 2"
  "correct_answers_count example_db (example_session\<lparr>session_completed_at := c\<rparr>) = 1"
  by (simp_all add: total_questions_count_def correct_answers_count_def
      selected_choice_is_correct_def example_db_def example_session_def)

lemma half_of_hundred: "float_mul_int (true_divide 1 2) 100 = Double 7036874417766400 (- 47)"
  by (simp add: double_eval)

lemma example_score:
  "calculate_quiz_score example_db (example_session\<lparr>session_completed_at := c\<rparr>)
   = Double 7036874417766400 (- 47)"
  using half_of_hundred by (simp add: calculate_quiz_score_def example_counts)

lemma filter_none:
  "distinct (map f xs) \<Longrightarrow> f x \<notin> f ` set xs \<Longrightarrow> \<forall>y \<in> set xs. P y \<longrightarrow> f y = f x \<Longrightarrow> filter P xs = []"
  by (induction xs) auto

lemma filter_unique:
  "distinct (map f xs) \<Longrightarrow> x \<in> set xs \<Longrightarrow> P x
   \<Longrightarrow> \<forall>y \<in> set xs. P y \<longrightarrow> f y = f x \<Longrightarrow> filter P xs = [x]"
proof (induction xs)
  case Nil
  then show ?case by simp
next
  case (Cons a xs)
  from Cons.prems(1) have na: "f a \<notin> f ` set xs" and d: "distinct (map f xs)" by simp_all
  from Cons.prems(4) have all: "\<forall>y \<in> set xs. P y \<longrightarrow> f y = f x" by simp
  show ?case
  proof (cases "a = x")
    case True
    with na d all have "filter P xs = []" by (simp add: filter_none)
    with True Cons.prems(3) show ?thesis by simp
  next
    case False
    with Cons.prems(2) have x: "x \<in> set xs" by simp
    then have "f x \<in> f ` set xs" by (rule imageI)
    with na have "f a \<noteq> f x" by auto
    with Cons.prems(4) have "\<not> P a" by auto
    moreover have "filter P xs = [x]" using Cons.IH [OF d x Cons.prems(3) all] .
    ultimately show ?thesis by simp
  qed
qed
lemma calculate_quiz_score_cong:
  "session_id s' = session_id s \<Longrightarrow> session_quiz s' = session_quiz s
   \<Longrightarrow> calculate_quiz_score db s' = calculate_quiz_score db s"
  by (simp add: calculate_quiz_score_def total_questions_count_def correct_answers_count_def)

lemma answers_save_session: "answers (save_session s db) = answers db"
  by (simp add: save_session_def)

lemma submit_answer_in_progress:
  assumes "QuizSessionViewSet_get_object v pk db = Inr s"
    and "session_completed_at s = None"
    and "is_timed_out t_check db s = Inr False"
  shows "QuizSessionViewSet_submit_answer t_check t_write v pk (Some qid) (Some cid) db =
    (case filter (\<lambda>q. question_id q = qid \<and> question_quiz q = session_quiz s) (questions db) of
       [] \<Rightarrow> (Response (Error ''Invalid question for this quiz'') 400, db)
     | [question] \<Rightarrow>
         (case filter (\<lambda>c. choice_id c = cid \<and> choice_question c = question_id question) (choices db) of
            [] \<Rightarrow> (Response (Error ''Invalid choice for this question'') 400, db)
          | [choice] \<Rightarrow>
              (case UserAnswer_update_or_create t_write (session_id s)
                      (question_id question) (choice_id choice) db of
                 Inl e \<Rightarrow> (Response (ServerError e) 500, db)
               | Inr ((user_answer, created), db') \<Rightarrow> (Response (UserAnswerData user_answer) 200, db'))
          | _ \<Rightarrow> (Response (ServerError MultipleObjectsReturned) 500, db))
     | _ \<Rightarrow> (Response (ServerError MultipleObjectsReturned) 500, db))"
  unfolding QuizSessionViewSet_submit_answer_def
  by (simp only: assms is_completed_def sum.case bool.case option.case prod.case simp_thms if_False)


lemma map_replace_by_key:
  assumes "distinct (map f xs)" and "a \<in> set xs"
  shows "map (\<lambda>x. if f x = f a then a' else x) xs = map (\<lambda>x. if x = a then a' else x) xs"
proof (rule map_cong [OF refl])
  fix x assume "x \<in> set xs"
  with assms have "f x = f a \<longleftrightarrow> x = a" using distinct_key_eq [of f xs x a] by auto
  then show "(if f x = f a then a' else x) = (if x = a then a' else x)" by simp
qed

lemma update_or_create_effect:
  assumes c: "UserAnswer_constraints db"
    and r: "UserAnswer_update_or_create now sid qid cid db = Inr ((a, cr), db')"
  shows "UserAnswer_constraints db'"
    and "map answer_selected_choice (answers_for db' sid qid) = [cid]"
    and "(sid', qid') \<noteq> (sid, qid) \<Longrightarrow> answers_for db' sid' qid' = answers_for db sid' qid'"
proof -
  let ?P = "\<lambda>a. answer_session a = sid \<and> answer_question a = qid"
  let ?Q = "\<lambda>a. answer_session a = sid' \<and> answer_question a = qid'"
  show "UserAnswer_constraints db'"
    and "map answer_selected_choice (answers_for db' sid qid) = [cid]"
    and "(sid', qid') \<noteq> (sid, qid) \<Longrightarrow> answers_for db' sid' qid' = answers_for db sid' qid'"
  proof (atomize (full), cases "filter ?P (answers db)")
    case Nil
    define n where "n = \<lparr>answer_id = next_uuid db, answer_session = sid, answer_question = qid,
                    answer_selected_choice = cid, answer_answered_at = now\<rparr>"
    from r Nil have db': "db' = db\<lparr>next_uuid := Suc (next_uuid db), answers := answers db @ [n]\<rparr>"
      by (auto simp: UserAnswer_update_or_create_def uuid4_def n_def Let_def)
    from Nil have no: "\<forall>x \<in> set (answers db). \<not> ?P x" by (simp add: filter_empty_conv)
    then have k: "(sid, qid) \<notin> (\<lambda>a. (answer_session a, answer_question a)) ` set (answers db)"
      by auto
    from c have lt: "\<forall>x \<in> set (answers db). answer_id x < next_uuid db"
      by (simp add: UserAnswer_constraints_def list_all_iff)
    then have i: "next_uuid db \<notin> answer_id ` set (answers db)" by auto
    have 1: "UserAnswer_constraints db'"
      using c k i lt by (auto simp: UserAnswer_constraints_def db' n_def list_all_iff)
    have 2: "map answer_selected_choice (answers_for db' sid qid) = [cid]"
      using Nil by (simp add: answers_for_def db' n_def)
    have 3: "(sid', qid') \<noteq> (sid, qid) \<Longrightarrow> answers_for db' sid' qid' = answers_for db sid' qid'"
      by (auto simp: answers_for_def db' n_def)
    from 1 2 3 show "UserAnswer_constraints db' \<and>
      map answer_selected_choice (answers_for db' sid qid) = [cid] \<and>
      ((sid', qid') \<noteq> (sid, qid) \<longrightarrow> answers_for db' sid' qid' = answers_for db sid' qid')"
      by blast
  next
    case (Cons a0 rest)
    with r have rest: "rest = []" by (cases rest) (simp_all add: UserAnswer_update_or_create_def)
    with Cons have f: "filter ?P (answers db) = [a0]" by simp
    then have "a0 \<in> set (filter ?P (answers db))" by simp
    then have mem: "a0 \<in> set (answers db)" and pa: "?P a0" by simp_all
    define a' where "a' = a0\<lparr>answer_selected_choice := cid\<rparr>"
    from c have d: "distinct (map answer_id (answers db))" by (simp add: UserAnswer_constraints_def)
    from r f have "db' = db\<lparr>answers := map (\<lambda>x. if answer_id x = answer_id a0 then a' else x) (answers db)\<rparr>"
      by (auto simp: UserAnswer_update_or_create_def a'_def Let_def)
    then have db': "db' = db\<lparr>answers := map (\<lambda>x. if x = a0 then a' else x) (answers db)\<rparr>"
      using map_replace_by_key [OF d mem] by simp
    have keys: "map (g \<circ> (\<lambda>x. if x = a0 then a' else x)) xs = map g xs"
      if "g a' = g a0" for g :: "UserAnswer \<Rightarrow> 'b" and xs
      using that by (induction xs) auto
    have k1: "map answer_id (answers db') = map answer_id (answers db)"
      using keys [of answer_id] by (simp add: db' a'_def)
    have k2: "map (\<lambda>a. (answer_session a, answer_question a)) (answers db')
              = map (\<lambda>a. (answer_session a, answer_question a)) (answers db)"
      using keys [of "\<lambda>a. (answer_session a, answer_question a)"] by (simp add: db' a'_def)
    have k3: "next_uuid db' = next_uuid db" by (simp add: db')
    from c have "list_all (\<lambda>n. n < next_uuid db) (map answer_id (answers db))"
      by (simp add: UserAnswer_constraints_def list_all_iff)
    then have "list_all (\<lambda>n. n < next_uuid db') (map answer_id (answers db'))"
      by (simp only: k1 k3)
    then have "list_all (\<lambda>a. answer_id a < next_uuid db') (answers db')"
      by (simp add: list_all_iff)
    then have 1: "UserAnswer_constraints db'"
      using c unfolding UserAnswer_constraints_def k1 k2 by simp
    have fP: "filter ?P (map (\<lambda>x. if x = a0 then a' else x) xs)
              = map (\<lambda>x. if x = a0 then a' else x) (filter ?P xs)" for xs
      using pa by (induction xs) (auto simp: a'_def)
    have 2: "map answer_selected_choice (answers_for db' sid qid) = [cid]"
      by (simp add: answers_for_def db' fP f a'_def)
    have fQ: "filter ?Q (map (\<lambda>x. if x = a0 then a' else x) xs) = filter ?Q xs"
      if "(sid', qid') \<noteq> (sid, qid)" for xs
      using pa that by (induction xs) (auto simp: a'_def)
    have 3: "(sid', qid') \<noteq> (sid, qid) \<Longrightarrow> answers_for db' sid' qid' = answers_for db sid' qid'"
      by (simp add: answers_for_def db' fQ)
    from 1 2 3 show "UserAnswer_constraints db' \<and>
      map answer_selected_choice (answers_for db' sid qid) = [cid] \<and>
      ((sid', qid') \<noteq> (sid, qid) \<longrightarrow> answers_for db' sid' qid' = answers_for db sid' qid')"
      by blast
  qed
qed


lemma get_object_session_Inl_not_accepted:
  "QuizSessionViewSet_get_object v pk db = Inl r \<Longrightarrow> \<not> answer_accepted r"
  by (auto simp: QuizSessionViewSet_get_object_def answer_accepted_def
      split: viewer.splits list.splits sum.splits bool.splits)

lemma save_session_keeps:
  "answers (save_session s db) = answers db" "next_uuid (save_session s db) = next_uuid db"
  by (simp_all add: save_session_def)

lemma singleton_filter_holds:
  assumes "filter P xs = [x]"
  shows "P x"
proof -
  from assms have "x \<in> set (filter P xs)" by simp
  then show ?thesis by simp
qed

lemma submit_answer_effect:
  assumes "QuizSessionViewSet_submit_answer tc tw v pk dq dc db = (resp, db')"
  shows "(\<not> answer_accepted resp \<and> answers db' = answers db \<and> next_uuid db' = next_uuid db)
       \<or> (answer_accepted resp
          \<and> (\<exists>qid cid a cr. dq = Some qid \<and> dc = Some cid
                \<and> UserAnswer_update_or_create tw pk qid cid db = Inr ((a, cr), db')))"
proof (cases "QuizSessionViewSet_get_object v pk db")
  case (Inl r)
  with assms have "resp = r" "db' = db" by (simp_all add: QuizSessionViewSet_submit_answer_def)
  with Inl show ?thesis by (simp add: get_object_session_Inl_not_accepted)
next
  case (Inr s)
  then have pk: "session_id s = pk" by (simp add: get_object_session_Inr)
  show ?thesis
  proof (cases "session_completed_at s = None")
    case False
    with assms Inr have "resp = Response (Error ''This quiz session is already completed.'') 400"
      "db' = db"
      by (simp_all add: QuizSessionViewSet_submit_answer_def is_completed_def)
    then show ?thesis by (simp add: answer_accepted_def)
  next
    case nc: True
    show ?thesis
    proof (cases "is_timed_out tc db s")
      case (Inl e)
      with assms Inr nc have "resp = Response (ServerError e) 500" "db' = db"
        by (simp_all add: QuizSessionViewSet_submit_answer_def is_completed_def)
      then show ?thesis by (simp add: answer_accepted_def)
    next
      case (Inr b)
      show ?thesis
      proof (cases b)
        case True
        with assms \<open>QuizSessionViewSet_get_object v pk db = Inr s\<close> nc Inr
        have "resp = Response (Error ''Time's up! The quiz session has expired.'') 400"
          "db' = snd (complete_quiz_session tw s db)"
          by (simp_all add: QuizSessionViewSet_submit_answer_def is_completed_def)
        then show ?thesis
          by (simp add: answer_accepted_def complete_quiz_session_def Let_def save_session_keeps)
      next
        case False
        with Inr have to: "is_timed_out tc db s = Inr False" by simp
        note g = \<open>QuizSessionViewSet_get_object v pk db = Inr s\<close>
        show ?thesis
        proof (cases "\<exists>qid cid. dq = Some qid \<and> dc = Some cid")
          case False
          with assms g nc to
          have "resp = Response (Error ''Question ID and Choice ID are required'') 400" "db' = db"
            by (auto simp: QuizSessionViewSet_submit_answer_def is_completed_def
                split: option.splits)
          then show ?thesis by (simp add: answer_accepted_def)
        next
          case True
          then obtain qid cid where d: "dq = Some qid" "dc = Some cid" by blast
          note u = submit_answer_in_progress [OF g nc to, of tw qid cid]
          let ?qs = "filter (\<lambda>q. question_id q = qid \<and> question_quiz q = session_quiz s) (questions db)"
          show ?thesis
          proof (cases ?qs)
            case Nil
            with assms u d have "resp = Response (Error ''Invalid question for this quiz'') 400"
              "db' = db" by simp_all
            then show ?thesis by (simp add: answer_accepted_def)
          next
            case (Cons question qrest)
            show ?thesis
            proof (cases qrest)
              case (Cons q2 q3)
              with assms u d \<open>?qs = question # qrest\<close>
              have "resp = Response (ServerError MultipleObjectsReturned) 500" "db' = db"
                by simp_all
              then show ?thesis by (simp add: answer_accepted_def)
            next
              case Nil
              with \<open>?qs = question # qrest\<close> have fq: "?qs = [question]" by simp
              then have qq: "question_id question = qid" by (auto dest: singleton_filter_holds)
              let ?cs = "filter (\<lambda>c. choice_id c = cid \<and> choice_question c = question_id question) (choices db)"
              have u2: "QuizSessionViewSet_submit_answer tc tw v pk (Some qid) (Some cid) db =
                (case ?cs of
                  [] \<Rightarrow> (Response (Error ''Invalid choice for this question'') 400, db)
                | [choice] \<Rightarrow>
                    (case UserAnswer_update_or_create tw (session_id s)
                            (question_id question) (choice_id choice) db of
                       Inl e \<Rightarrow> (Response (ServerError e) 500, db)
                     | Inr ((user_answer, created), db') \<Rightarrow> (Response (UserAnswerData user_answer) 200, db'))
                | _ \<Rightarrow> (Response (ServerError MultipleObjectsReturned) 500, db))"
                by (simp only: u fq list.case)
              show ?thesis
              proof (cases ?cs)
                case Nil
                with assms u2 d have "resp = Response (Error ''Invalid choice for this question'') 400"
                  "db' = db" by simp_all
                then show ?thesis by (simp add: answer_accepted_def)
              next
                case (Cons choice crest)
                show ?thesis
                proof (cases crest)
                  case (Cons c2 c3)
                  with assms u2 d \<open>?cs = choice # crest\<close>
                  have "resp = Response (ServerError MultipleObjectsReturned) 500" "db' = db"
                    by simp_all
                  then show ?thesis by (simp add: answer_accepted_def)
                next
                  case Nil
                  with \<open>?cs = choice # crest\<close> have fc: "?cs = [choice]" by simp
                  then have cc: "choice_id choice = cid" by (auto dest: singleton_filter_holds)
                  have "QuizSessionViewSet_submit_answer tc tw v pk (Some qid) (Some cid) db =
                    (case UserAnswer_update_or_create tw (session_id s)
                            (question_id question) (choice_id choice) db of
                       Inl e \<Rightarrow> (Response (ServerError e) 500, db)
                     | Inr ((user_answer, created), db') \<Rightarrow> (Response (UserAnswerData user_answer) 200, db'))"
                    by (simp only: u2 fc list.case)
                  then have u3: "QuizSessionViewSet_submit_answer tc tw v pk (Some qid) (Some cid) db =
                    (case UserAnswer_update_or_create tw pk qid cid db of
                       Inl e \<Rightarrow> (Response (ServerError e) 500, db)
                     | Inr ((user_answer, created), db') \<Rightarrow> (Response (UserAnswerData user_answer) 200, db'))"
                    by (simp only: pk qq cc)
                  show ?thesis
                  proof (cases "UserAnswer_update_or_create tw pk qid cid db")
                    case (Inl e)
                    with assms u3 d have "resp = Response (ServerError e) 500" "db' = db"
                      by simp_all
                    then show ?thesis by (simp add: answer_accepted_def)
                  next
                    case (Inr res)
                    obtain a cr db2 where res: "res = ((a, cr), db2)" by (metis surj_pair)
                    with assms u3 d Inr have "resp = Response (UserAnswerData a) 200" "db' = db2"
                      by simp_all
                    with Inr res d show ?thesis by (simp add: answer_accepted_def)
                  qed
                qed
              qed
            qed
          qed
        qed
      qed
    qed
  qed
qed


lemma constraints_cong:
  "answers db' = answers db \<Longrightarrow> next_uuid db' = next_uuid db
   \<Longrightarrow> UserAnswer_constraints db' = UserAnswer_constraints db"
  by (simp add: UserAnswer_constraints_def)

lemma submit_step:
  assumes c: "UserAnswer_constraints db" and s: "submit r db = (resp, db')"
  shows "UserAnswer_constraints db'"
    and "answer_accepted resp \<Longrightarrow> \<exists>q c. req_question_id r = Some q \<and> req_choice_id r = Some c"
    and "answer_accepted resp \<Longrightarrow> req_pk r = sid \<Longrightarrow> req_question_id r = Some qid
         \<Longrightarrow> map answer_selected_choice (answers_for db' sid qid) = [the (req_choice_id r)]"
    and "\<not> (answer_accepted resp \<and> req_pk r = sid \<and> req_question_id r = Some qid)
         \<Longrightarrow> answers_for db' sid qid = answers_for db sid qid"
proof -
  from s have e: "(\<not> answer_accepted resp \<and> answers db' = answers db \<and> next_uuid db' = next_uuid db)
       \<or> (answer_accepted resp
          \<and> (\<exists>q c a cr. req_question_id r = Some q \<and> req_choice_id r = Some c
                \<and> UserAnswer_update_or_create (req_t_write r) (req_pk r) q c db = Inr ((a, cr), db')))"
    unfolding submit_def by (rule submit_answer_effect)
  show "UserAnswer_constraints db'"
  proof (cases "answer_accepted resp")
    case False
    with e have "answers db' = answers db" "next_uuid db' = next_uuid db" by simp_all
    then have "UserAnswer_constraints db' = UserAnswer_constraints db" by (rule constraints_cong)
    with c show ?thesis by simp
  next
    case True
    with e obtain q c' a cr where
      "UserAnswer_update_or_create (req_t_write r) (req_pk r) q c' db = Inr ((a, cr), db')"
      by auto
    then show ?thesis by (rule update_or_create_effect(1) [OF c])
  qed
  show "answer_accepted resp \<Longrightarrow> \<exists>q c. req_question_id r = Some q \<and> req_choice_id r = Some c"
    using e by auto
  show "map answer_selected_choice (answers_for db' sid qid) = [the (req_choice_id r)]"
    if "answer_accepted resp" "req_pk r = sid" "req_question_id r = Some qid"
  proof -
    from that e obtain c' a cr where c': "req_choice_id r = Some c'"
      and u: "UserAnswer_update_or_create (req_t_write r) sid qid c' db = Inr ((a, cr), db')"
      by auto
    from update_or_create_effect(2) [OF c u] c' show ?thesis by simp
  qed
  show "answers_for db' sid qid = answers_for db sid qid"
    if n: "\<not> (answer_accepted resp \<and> req_pk r = sid \<and> req_question_id r = Some qid)"
  proof (cases "answer_accepted resp")
    case False
    with e show ?thesis by (simp add: answers_for_def)
  next
    case True
    with e obtain q c' a cr where q: "req_question_id r = Some q"
      and u: "UserAnswer_update_or_create (req_t_write r) (req_pk r) q c' db = Inr ((a, cr), db')"
      by auto
    from True n q have "(sid, qid) \<noteq> (req_pk r, q)" by auto
    then show ?thesis by (rule update_or_create_effect(3) [OF c u])
  qed
qed

lemma last_accepted_Some:
  "last_accepted sid qid rs db (Some c) \<noteq> None"
proof (induction rs arbitrary: db c)
  case Nil
  then show ?case by simp
next
  case (Cons r rs)
  obtain resp db' where s: "submit r db = (resp, db')" by (cases "submit r db")
  show ?case
  proof (cases "answer_accepted resp \<and> req_pk r = sid \<and> req_question_id r = Some qid")
    case True
    then have "answer_accepted resp" by simp
    from submit_answer_effect [OF s [unfolded submit_def]] this
    obtain c' where "req_choice_id r = Some c'" by auto
    with True s Cons.IH [of db' c'] show ?thesis by simp
  next
    case False
    with s Cons.IH [of db' c] show ?thesis by auto
  qed
qed

lemma submit_all_invariant:
  assumes "UserAnswer_constraints db"
    and "\<forall>c. acc = Some c \<longrightarrow> map answer_selected_choice (answers_for db sid qid) = [c]"
  shows "UserAnswer_constraints (submit_all rs db)
       \<and> (case last_accepted sid qid rs db acc of
            Some c \<Rightarrow> map answer_selected_choice (answers_for (submit_all rs db) sid qid) = [c]
          | None \<Rightarrow> answers_for (submit_all rs db) sid qid = answers_for db sid qid)"
  using assms
proof (induction rs arbitrary: db acc)
  case Nil
  then show ?case by (cases acc) simp_all
next
  case (Cons r rs)
  obtain resp db' where s: "submit r db = (resp, db')" by (cases "submit r db")
  note st = submit_step [OF Cons.prems(1) s]
  let ?hit = "answer_accepted resp \<and> req_pk r = sid \<and> req_question_id r = Some qid"
  let ?acc' = "if ?hit then req_choice_id r else acc"
  have la: "last_accepted sid qid (r # rs) db acc = last_accepted sid qid rs db' ?acc'"
    using s by simp
  have sa: "submit_all (r # rs) db = submit_all rs db'" using s by simp
  have inv: "\<forall>c. ?acc' = Some c \<longrightarrow> map answer_selected_choice (answers_for db' sid qid) = [c]"
  proof (cases ?hit)
    case True
    with st(3) [of sid qid] show ?thesis by auto
  next
    case False
    with st(4) [of sid qid] Cons.prems(2) show ?thesis by auto
  qed
  note ih = Cons.IH [OF st(1) inv]
  show ?case
  proof (cases "last_accepted sid qid rs db' ?acc'")
    case (Some c)
    with ih la sa show ?thesis by simp
  next
    case None
    have nh: "\<not> ?hit"
    proof
      assume h: ?hit
      with st(2) obtain c where "req_choice_id r = Some c" by auto
      with h None last_accepted_Some [of sid qid rs db' c] show False by simp
    qed
    with st(4) [of sid qid] have "answers_for db' sid qid = answers_for db sid qid" by simp
    with None ih la sa show ?thesis by simp
  qed
qed

lemma distinct_key_filter_le1:
  "distinct (map f xs) \<Longrightarrow> length (filter (\<lambda>x. f x = k) xs) \<le> 1"
proof (induction xs)
  case Nil
  then show ?case by simp
next
  case (Cons a xs)
  show ?case
  proof (cases "f a = k")
    case True
    with Cons.prems have "k \<notin> f ` set xs" by auto
    then have "filter (\<lambda>x. f x = k) xs = []" by (auto simp: filter_empty_conv)
    with True show ?thesis by simp
  next
    case False
    with Cons show ?thesis by simp
  qed
qed

lemma example_constraints: "UserAnswer_constraints example_db"
  by (simp add: UserAnswer_constraints_def example_db_def)

lemma example_last_accepted: "last_accepted 20 15 example_requests example_db None = Some 16"
  by (simp add: example_requests_def submit_def QuizSessionViewSet_submit_answer_def
      QuizSessionViewSet_get_object_def QuizSessionViewSet_get_queryset_def
      IsQuizCreatorOrParticipant_def is_completed_def is_timed_out_def get_quiz_def
      UserAnswer_update_or_create_def answer_accepted_def
      example_db_def example_session_def example_quiz_def Let_def)

lemma creator_in_queryset:
  assumes "quiz \<in> set (quizzes db)"
  shows "quiz \<in> set (QuizViewSet_get_queryset (Authenticated (quiz_creator quiz)) db)"
proof (cases "filter (\<lambda>s. share_quiz s = quiz_id quiz) (shares db)")
  case Nil
  with assms show ?thesis
    by (auto simp: QuizViewSet_get_queryset_def intro!: bexI [of _ quiz])
next
  case (Cons s ss)
  with assms show ?thesis
    by (auto simp: QuizViewSet_get_queryset_def intro!: bexI [of _ quiz])
qed

lemma rounding_counts:
  "total_questions_count rounding_db (example_session\<lparr>session_completed_at := c\<rparr>) = 20"
  "correct_answers_count rounding_db (example_session\<lparr>session_completed_at := c\<rparr>) = 11"
  by (simp_all add: total_questions_count_def correct_answers_count_def
      selected_choice_is_correct_def rounding_db_def example_session_def list_ex_iff
      filter_map o_def)

lemma eleven_twentieths: "float_mul_int (true_divide 11 20) 100 = Double 7740561859543041 (- 47)"
  by (simp add: double_eval)

lemma rounding_get_object:
  "QuizSessionViewSet_get_object (Authenticated 2) 20 rounding_db = Inr example_session"
  by (simp add: QuizSessionViewSet_get_object_def QuizSessionViewSet_get_queryset_def
      IsQuizCreatorOrParticipant_def get_quiz_def rounding_db_def example_db_def
      example_session_def example_quiz_def)








lemma build_quiz_refused_duration:
  "create_quiz_from_parsed_data 1 ''Long'' example_parsed (2 ^ 63) False example_db
   = (None, example_db\<lparr>next_uuid := 25\<rparr>)"
  by (simp add: create_quiz_from_parsed_data_def create_quiz_try_def Quiz_objects_create_def
      mark_for_rollback_on_error_def uuid4_def Let_def example_db_def)


lemmas share_eval = share_call_def QuizViewSet_share_def QuizViewSet_get_object_def
  QuizViewSet_get_queryset_def QuizShare_get_or_create_def save_share_def uuid4_def Let_def

lemma two_shares_reached:
  "share_all [share_with_bob_view, share_with_carol_view] example_db = two_shares_db"
  by (simp add: share_eval share_with_bob_view_def share_with_carol_view_def two_shares_db_def
      example_db_def example_quiz_def)


section \<open>Scoring at completion\<close>

text \<open>
  Claim C1 states the score as \<open>100 * K / N\<close>. The code computes the Python float
  \<^verbatim>\<open>(K / N) * 100\<close>: with eleven correct answers on twenty questions it stores
  \<open>7740561859543041 * 2 ^ (- 47)\<close>, the double next above 55, and not 55.
\<close>

theorem complete_score_rounding_counterexample:
  "total_questions_count rounding_db example_session = 20
   \<and> correct_answers_count rounding_db example_session = 11
   \<and> fst (QuizSessionViewSet_complete 120 (Authenticated 2) 20 rounding_db)
       = Response (QuizSessionResultData
           (example_session\<lparr>session_completed_at := Some 120,
              session_score := Some (Double 7740561859543041 (- 47))\<rparr>)) 200
   \<and> double_val (Double 7740561859543041 (- 47)) \<noteq> 100 * 11 / 20"
proof -
  have n: "session_completed_at example_session = None" by (simp add: example_session_def)
  have c: "total_questions_count rounding_db example_session = 20"
    "correct_answers_count rounding_db example_session = 11"
    using rounding_counts [of None] by (simp_all add: example_session_def)
  have s: "calculate_quiz_score rounding_db (example_session\<lparr>session_completed_at := Some 120\<rparr>)
           = Double 7740561859543041 (- 47)"
    using eleven_twentieths by (simp add: calculate_quiz_score_def rounding_counts)
  have r: "fst (QuizSessionViewSet_complete 120 (Authenticated 2) 20 rounding_db)
       = Response (QuizSessionResultData
           (example_session\<lparr>session_completed_at := Some 120,
              session_score := Some (Double 7740561859543041 (- 47))\<rparr>)) 200"
    using rounding_get_object n
    by (simp add: QuizSessionViewSet_complete_def is_completed_def complete_quiz_session_def
        Let_def s split: prod.splits)
  have d: "double_val (Double 7740561859543041 (- 47)) \<noteq> 100 * 11 / 20"
    by (simp add: double_val_def)
  from c r d show ?thesis by simp
qed

text \<open>
  Claim C1, amended. Completing a session that is not yet completed answers 200, stores
  the session with the completion time, and stores as score the double \<^verbatim>\<open>(K / N) * 100\<close>:
  the quotient of \<open>K\<close>, the number of the session's answers whose selected choice is
  flagged correct, by \<open>N\<close>, the number of questions of the session's quiz, rounded to the
  nearest double, times 100, rounded again. The score differs from \<open>100 * K / N\<close> by at
  most the fraction \<open>2 ^ (- 51)\<close> of that value; with \<open>N = 0\<close> the score is \<open>0\<close>.
\<close>

theorem complete_computes_rounded_score:
  assumes "QuizSessionViewSet_get_object v pk db = Inr s"
    and "session_completed_at s = None"
  shows "\<exists>s' db' score. QuizSessionViewSet_complete now v pk db
                    = (Response (QuizSessionResultData s') 200, db')
           \<and> find (\<lambda>x. session_id x = pk) (sessions db') = Some s'
           \<and> session_completed_at s' = Some now
           \<and> session_score s' = Some score
           \<and> (let N = length (filter (\<lambda>q. question_quiz q = session_quiz s) (questions db));
                    K = length (filter (\<lambda>a. answer_session a = pk
                                   \<and> (\<exists>c \<in> set (choices db). choice_id c = answer_selected_choice a
                                                                  \<and> choice_is_correct c))
                                 (answers db))
                in score = (if N = 0 then Double 0 0 else float_mul_int (true_divide K N) 100)
                   \<and> (N = 0 \<longrightarrow> double_val score = 0)
                   \<and> (N \<noteq> 0 \<longrightarrow>
                         \<bar>double_val score - 100 * of_nat K / of_nat N\<bar>
                           \<le> (100 * of_nat K / of_nat N) / 2 ^ 51))"
proof -
  from assms(1) have pk: "session_id s = pk" by (simp add: get_object_session_Inr)
  define N where "N = length (filter (\<lambda>q. question_quiz q = session_quiz s) (questions db))"
  define K where "K = length (filter (\<lambda>a. answer_session a = pk
                                   \<and> (\<exists>c \<in> set (choices db). choice_id c = answer_selected_choice a
                                                                  \<and> choice_is_correct c))
                                 (answers db))"
  define score where "score = (if N = 0 then Double 0 0 else float_mul_int (true_divide K N) 100)"
  define s' where "s' = fst (complete_quiz_session now s db)"
  define db' where "db' = snd (complete_quiz_session now s db)"
  have c: "QuizSessionViewSet_complete now v pk db = (Response (QuizSessionResultData s') 200, db')"
    using assms
    by (simp add: QuizSessionViewSet_complete_def is_completed_def s'_def db'_def split: prod.splits)
  have id: "session_id s' = pk" using assms(2) pk
    by (simp add: s'_def complete_quiz_session_def Let_def)
  have db': "db' = save_session s' db" using assms(2)
    by (simp add: s'_def db'_def complete_quiz_session_def Let_def)
  have f: "find (\<lambda>x. session_id x = pk) (sessions db') = Some s'"
    using find_save_session [of s' db] id db' by simp
  have t: "session_completed_at s' = Some now" using assms(2)
    by (simp add: s'_def complete_quiz_session_def Let_def)
  have "calculate_quiz_score db (s\<lparr>session_completed_at := Some now\<rparr>) = score"
    using pk
    by (simp add: calculate_quiz_score_def total_questions_count_def correct_answers_count_def
        selected_choice_is_correct_def Let_def list_ex_iff score_def N_def K_def)
  then have sc: "session_score s' = Some score"
    using assms(2) by (simp add: s'_def complete_quiz_session_def Let_def)
  have z: "N = 0 \<longrightarrow> double_val score = 0" by (simp add: score_def double_val_def)
  have e: "N \<noteq> 0 \<longrightarrow>
        \<bar>double_val score - 100 * of_nat K / of_nat N\<bar> \<le> (100 * of_nat K / of_nat N) / 2 ^ 51"
  proof
    assume "N \<noteq> 0"
    then have "0 < N" by simp
    from percentage_error [OF this, of K] \<open>N \<noteq> 0\<close> show
      "\<bar>double_val score - 100 * of_nat K / of_nat N\<bar> \<le> (100 * of_nat K / of_nat N) / 2 ^ 51"
      by (simp add: score_def)
  qed
  show ?thesis
  proof (intro exI conjI)
    show "QuizSessionViewSet_complete now v pk db = (Response (QuizSessionResultData s') 200, db')"
      by (rule c)
    show "find (\<lambda>x. session_id x = pk) (sessions db') = Some s'" by (rule f)
    show "session_completed_at s' = Some now" by (rule t)
    show "session_score s' = Some score" by (rule sc)
    show "let N = length (filter (\<lambda>q. question_quiz q = session_quiz s) (questions db));
              K = length (filter (\<lambda>a. answer_session a = pk
                                   \<and> (\<exists>c \<in> set (choices db). choice_id c = answer_selected_choice a
                                                                  \<and> choice_is_correct c))
                                 (answers db))
          in score = (if N = 0 then Double 0 0 else float_mul_int (true_divide K N) 100)
             \<and> (N = 0 \<longrightarrow> double_val score = 0)
             \<and> (N \<noteq> 0 \<longrightarrow>
                   \<bar>double_val score - 100 * of_nat K / of_nat N\<bar>
                     \<le> (100 * of_nat K / of_nat N) / 2 ^ 51)"
      unfolding Let_def N_def [symmetric] K_def [symmetric]
      using z e by (simp add: score_def)
  qed
qed

theorem complete_computes_rounded_score_witness:
  "QuizSessionViewSet_get_object (Authenticated 2) 20 example_db = Inr example_session
   \<and> session_completed_at example_session = None
   \<and> (\<exists>s' db'. QuizSessionViewSet_complete 120 (Authenticated 2) 20 example_db
                   = (Response (QuizSessionResultData s') 200, db')
         \<and> find (\<lambda>x. session_id x = 20) (sessions db') = Some s'
         \<and> session_completed_at s' = Some 120
         \<and> session_score s' = Some (Double 7036874417766400 (- 47))
         \<and> double_val (Double 7036874417766400 (- 47)) = 50)"
proof -
  have h2: "session_completed_at example_session = None" by (simp add: example_session_def)
  from complete_computes_rounded_score [OF example_get_object h2, of 120]
  obtain s' db' score where c: "QuizSessionViewSet_complete 120 (Authenticated 2) 20 example_db
                   = (Response (QuizSessionResultData s') 200, db')"
    and f: "find (\<lambda>x. session_id x = 20) (sessions db') = Some s'"
    and t: "session_completed_at s' = Some 120"
    and sc: "session_score s' = Some score"
    by blast
  from c example_get_object h2 have "s' = fst (complete_quiz_session 120 example_session example_db)"
    by (simp add: QuizSessionViewSet_complete_def is_completed_def split: prod.splits)
  then have "session_score s' = Some (Double 7036874417766400 (- 47))"
    using h2 by (simp add: complete_quiz_session_def Let_def example_score)
  moreover have "double_val (Double 7036874417766400 (- 47)) = 50" by (simp add: double_val_def)
  ultimately show ?thesis using example_get_object h2 c f t by blast
qed

section \<open>Completing twice\<close>

text \<open>
  Claim C4. With distinct session keys, after a call of \<^verbatim>\<open>complete\<close> that answered 200,
  a second call on the same session answers 400 with the message that the session is
  already completed and leaves every table as the first call left it: the stored
  session still carries the completion time and the score of the first call.
\<close>

theorem complete_twice_rejected:
  assumes "distinct (map session_id (sessions db))"
    and "QuizSessionViewSet_complete t1 v pk db = (Response (QuizSessionResultData s1) 200, db1)"
  shows "QuizSessionViewSet_complete t2 v pk db1 = (Response (Error ''This session is already completed'') 400, db1)
       \<and> find (\<lambda>x. session_id x = pk) (sessions db1) = Some s1
       \<and> session_completed_at s1 = Some t1"
proof -
  from assms(2) obtain s where g: "QuizSessionViewSet_get_object v pk db = Inr s"
    and nc: "session_completed_at s = None"
    and r: "complete_quiz_session t1 s db = (s1, db1)"
    by (auto simp: QuizSessionViewSet_complete_def is_completed_def
        split: sum.splits if_splits prod.splits dest: get_object_session_Inl)
  from g have pk: "session_id s = pk" by (simp add: get_object_session_Inr)
  from r nc have s1: "s1 = s\<lparr>session_completed_at := Some t1,
      session_score := Some (calculate_quiz_score db (s\<lparr>session_completed_at := Some t1\<rparr>))\<rparr>"
    and db1: "db1 = save_session s1 db"
    by (auto simp: complete_quiz_session_def Let_def)
  have g1: "QuizSessionViewSet_get_object v pk db1 = Inr s1"
    unfolding db1 by (rule get_object_after_save [OF g assms(1)]) (simp_all add: s1)
  have c: "is_completed s1" by (simp add: s1 is_completed_def)
  have "find (\<lambda>x. session_id x = session_id s1) (sessions db1) = Some s1"
    unfolding db1 by (rule find_save_session)
  moreover have "session_id s1 = pk" using pk by (simp add: s1)
  ultimately show ?thesis using g1 c by (simp add: QuizSessionViewSet_complete_def s1)
qed

theorem complete_twice_rejected_witness:
  "distinct (map session_id (sessions example_db))
   \<and> (\<exists>s1 db1. QuizSessionViewSet_complete 120 (Authenticated 2) 20 example_db
                   = (Response (QuizSessionResultData s1) 200, db1)
         \<and> QuizSessionViewSet_complete 130 (Authenticated 2) 20 db1
             = (Response (Error ''This session is already completed'') 400, db1)
         \<and> find (\<lambda>x. session_id x = 20) (sessions db1) = Some s1
         \<and> session_completed_at s1 = Some 120 \<and> session_score s1 = Some (Double 7036874417766400 (- 47)))"
proof -
  have d: "distinct (map session_id (sessions example_db))" by (simp add: example_db_def)
  have nc: "session_completed_at example_session = None" by (simp add: example_session_def)
  define s1 where "s1 = fst (complete_quiz_session 120 example_session example_db)"
  define db1 where "db1 = snd (complete_quiz_session 120 example_session example_db)"
  have c: "QuizSessionViewSet_complete 120 (Authenticated 2) 20 example_db
             = (Response (QuizSessionResultData s1) 200, db1)"
    using example_get_object nc
    by (simp add: QuizSessionViewSet_complete_def is_completed_def s1_def db1_def split: prod.splits)
  have sc: "session_score s1 = Some (Double 7036874417766400 (- 47))"
    using nc by (simp add: s1_def complete_quiz_session_def Let_def example_score)
  from complete_twice_rejected [OF d c, of 130] have
    "QuizSessionViewSet_complete 130 (Authenticated 2) 20 db1
       = (Response (Error ''This session is already completed'') 400, db1)
     \<and> find (\<lambda>x. session_id x = 20) (sessions db1) = Some s1
     \<and> session_completed_at s1 = Some 120" .
  with d c sc show ?thesis by blast
qed

section \<open>Submitting to a timed-out session\<close>

text \<open>
  Claim C3. A session that is not completed and whose elapsed time at the check exceeds
  \<open>duration_minutes * 60\<close> seconds reports \<open>is_timed_out = True\<close>. \<^verbatim>\<open>submit_answer\<close> on it
  answers 400 with the time's-up message, leaves the answers table as it was, and stores
  the session as completed, with the completion time and with the score computed from
  the answers recorded before the call.
\<close>

theorem submit_answer_timed_out:
  assumes "QuizSessionViewSet_get_object v pk db = Inr s"
    and "session_completed_at s = None"
    and "get_quiz db (session_quiz s) = Some q"
    and "t_check - session_started_at s > of_nat (quiz_duration_minutes q * 60)"
  shows "is_timed_out t_check db s = Inr True
       \<and> (\<exists>s' db'. QuizSessionViewSet_submit_answer t_check t_write v pk data_question_id data_choice_id db
                      = (Response (Error ''Time's up! The quiz session has expired.'') 400, db')
            \<and> answers db' = answers db
            \<and> find (\<lambda>x. session_id x = pk) (sessions db') = Some s'
            \<and> session_completed_at s' = Some t_write
            \<and> session_score s' = Some (calculate_quiz_score db s))"
proof -
  from assms(1) have pk: "session_id s = pk" by (simp add: get_object_session_Inr)
  have t: "is_timed_out t_check db s = Inr True"
    using assms(2,3,4) by (simp add: is_timed_out_def Let_def)
  define s' where "s' = s\<lparr>session_completed_at := Some t_write,
      session_score := Some (calculate_quiz_score db (s\<lparr>session_completed_at := Some t_write\<rparr>))\<rparr>"
  have c: "complete_quiz_session t_write s db = (s', save_session s' db)"
    using assms(2) by (simp add: complete_quiz_session_def Let_def s'_def)
  have r: "QuizSessionViewSet_submit_answer t_check t_write v pk data_question_id data_choice_id db
         = (Response (Error ''Time's up! The quiz session has expired.'') 400, save_session s' db)"
    using assms(1,2) t c by (simp add: QuizSessionViewSet_submit_answer_def is_completed_def)
  have f: "find (\<lambda>x. session_id x = pk) (sessions (save_session s' db)) = Some s'"
    using find_save_session [of s' db] pk by (simp add: s'_def)
  have "calculate_quiz_score db (s\<lparr>session_completed_at := Some t_write\<rparr>)
        = calculate_quiz_score db s"
    by (rule calculate_quiz_score_cong) simp_all
  then have sc: "session_score s' = Some (calculate_quiz_score db s)"
    by (simp add: s'_def)
  have ca: "session_completed_at s' = Some t_write" by (simp add: s'_def)
  show ?thesis
  proof (intro conjI exI)
    show "is_timed_out t_check db s = Inr True" by (rule t)
    show "QuizSessionViewSet_submit_answer t_check t_write v pk data_question_id data_choice_id db
         = (Response (Error ''Time's up! The quiz session has expired.'') 400, save_session s' db)"
      by (rule r)
    show "answers (save_session s' db) = answers db" by (rule answers_save_session)
    show "find (\<lambda>x. session_id x = pk) (sessions (save_session s' db)) = Some s'" by (rule f)
    show "session_completed_at s' = Some t_write" by (rule ca)
    show "session_score s' = Some (calculate_quiz_score db s)" by (rule sc)
  qed
qed




theorem submit_answer_timed_out_witness:
  "QuizSessionViewSet_get_object (Authenticated 2) 20 example_db = Inr example_session
   \<and> session_completed_at example_session = None
   \<and> get_quiz example_db (session_quiz example_session) = Some example_quiz
   \<and> 601 - session_started_at example_session > of_nat (quiz_duration_minutes example_quiz * 60)
   \<and> is_timed_out 601 example_db example_session = Inr True
   \<and> (\<exists>s' db'. QuizSessionViewSet_submit_answer 601 602 (Authenticated 2) 20 (Some 15) (Some 16) example_db
                  = (Response (Error ''Time's up! The quiz session has expired.'') 400, db')
        \<and> answers db' = answers example_db
        \<and> find (\<lambda>x. session_id x = 20) (sessions db') = Some s'
        \<and> session_completed_at s' = Some 602
        \<and> session_score s' = Some (Double 7036874417766400 (- 47)))"
proof -
  have h2: "session_completed_at example_session = None" by (simp add: example_session_def)
  have h3: "get_quiz example_db (session_quiz example_session) = Some example_quiz"
    by (simp add: get_quiz_def example_db_def example_session_def example_quiz_def)
  have h4: "601 - session_started_at example_session > of_nat (quiz_duration_minutes example_quiz * 60)"
    by (simp add: example_session_def example_quiz_def)
  have "calculate_quiz_score example_db (example_session\<lparr>session_completed_at := None\<rparr>)
        = Double 7036874417766400 (- 47)"
    by (rule example_score)
  then have sc: "calculate_quiz_score example_db example_session = Double 7036874417766400 (- 47)"
    by (simp add: example_session_def)
  from submit_answer_timed_out [OF example_get_object h2 h3 h4, of 602 "Some 15" "Some 16"]
    example_get_object h2 h3 h4 sc
  show ?thesis by simp
qed

section \<open>Submitting a foreign question or choice\<close>

text \<open>
  Claim C6. For a session in progress (not completed, not timed out) and distinct question
  keys: when the question does not belong to the session's quiz, or the choice does not
  belong to the question, \<^verbatim>\<open>submit_answer\<close> answers 400 with the message for the invalid
  question or the invalid choice, and returns the database unchanged.
\<close>

theorem submit_answer_invalid_reference:
  assumes "QuizSessionViewSet_get_object v pk db = Inr s"
    and "session_completed_at s = None"
    and "is_timed_out t_check db s = Inr False"
    and "distinct (map question_id (questions db))"
    and "(\<forall>q \<in> set (questions db). question_id q = qid \<longrightarrow> question_quiz q \<noteq> session_quiz s)
         \<or> (\<forall>c \<in> set (choices db). choice_id c = cid \<longrightarrow> choice_question c \<noteq> qid)"
  shows "QuizSessionViewSet_submit_answer t_check t_write v pk (Some qid) (Some cid) db
         = (Response (Error
              (if \<forall>q \<in> set (questions db). question_id q = qid \<longrightarrow> question_quiz q \<noteq> session_quiz s
               then ''Invalid question for this quiz''
               else ''Invalid choice for this question'')) 400, db)"
proof (cases "\<forall>q \<in> set (questions db). question_id q = qid \<longrightarrow> question_quiz q \<noteq> session_quiz s")
  case True
  then have e: "filter (\<lambda>q. question_id q = qid \<and> question_quiz q = session_quiz s) (questions db) = []"
    by (auto simp: filter_empty_conv)
  show ?thesis
    by (simp only: submit_answer_in_progress [OF assms(1,2,3)] e if_P [OF True] list.case)
next
  case False
  then obtain q where q: "q \<in> set (questions db)" "question_id q = qid"
    "question_quiz q = session_quiz s" by auto
  have fq: "filter (\<lambda>q. question_id q = qid \<and> question_quiz q = session_quiz s) (questions db) = [q]"
    by (rule filter_unique [OF assms(4) q(1)]) (simp_all add: q)
  from False assms(5) have "\<forall>c \<in> set (choices db). choice_id c = cid \<longrightarrow> choice_question c \<noteq> qid"
    by blast
  then have fc: "filter (\<lambda>c. choice_id c = cid \<and> choice_question c = question_id q) (choices db) = []"
    using q(2) by (auto simp: filter_empty_conv)
  show ?thesis
    by (simp only: submit_answer_in_progress [OF assms(1,2,3)] fq fc if_not_P [OF False] list.case)
qed


theorem submit_answer_invalid_reference_witness:
  "QuizSessionViewSet_get_object (Authenticated 2) 20 example_db = Inr example_session
   \<and> session_completed_at example_session = None
   \<and> is_timed_out 100 example_db example_session = Inr False
   \<and> distinct (map question_id (questions example_db))
   \<and> filter (\<lambda>c. choice_id c = 16 \<and> choice_question c = 12) (choices example_db) = []
   \<and> QuizSessionViewSet_submit_answer 100 101 (Authenticated 2) 20 (Some 12) (Some 16) example_db
       = (Response (Error ''Invalid choice for this question'') 400, example_db)"
proof -
  have h2: "session_completed_at example_session = None" by (simp add: example_session_def)
  have h3: "is_timed_out 100 example_db example_session = Inr False"
    by (simp add: is_timed_out_def get_quiz_def example_db_def example_session_def example_quiz_def)
  have h4: "distinct (map question_id (questions example_db))" by (simp add: example_db_def)
  have h5: "\<forall>c \<in> set (choices example_db). choice_id c = 16 \<longrightarrow> choice_question c \<noteq> 12"
    by (simp add: example_db_def)
  have q: "\<not> (\<forall>q \<in> set (questions example_db).
               question_id q = 12 \<longrightarrow> question_quiz q \<noteq> session_quiz example_session)"
    by (simp add: example_db_def example_session_def)
  from submit_answer_invalid_reference [OF example_get_object h2 h3 h4 disjI2 [OF h5], of 101]
  have "QuizSessionViewSet_submit_answer 100 101 (Authenticated 2) 20 (Some 12) (Some 16) example_db
       = (Response (Error ''Invalid choice for this question'') 400, example_db)"
    by (simp only: q if_False)
  moreover have "filter (\<lambda>c. choice_id c = 16 \<and> choice_question c = 12) (choices example_db) = []"
    by (simp add: example_db_def)
  ultimately show ?thesis using example_get_object h2 h3 h4 by blast
qed

section \<open>One answer for each question of a session\<close>

text \<open>
  Claim C5. From a database that satisfies the \<^verbatim>\<open>UserAnswer\<close> constraints, after any run of
  \<^verbatim>\<open>submit_answer\<close> calls the constraints hold again, at most one answer is stored for
  any (session, question) pair, and that answer selects the choice of the last accepted
  submission for the pair; when the run accepts none for the pair, its answers are as
  before the run.
\<close>

theorem answer_upsert_last_write_wins:
  assumes "UserAnswer_constraints db"
  shows "UserAnswer_constraints (submit_all rs db)
       \<and> length (answers_for (submit_all rs db) sid qid) \<le> 1
       \<and> (case last_accepted sid qid rs db None of
            Some c \<Rightarrow> map answer_selected_choice (answers_for (submit_all rs db) sid qid) = [c]
          | None \<Rightarrow> answers_for (submit_all rs db) sid qid = answers_for db sid qid)"
proof -
  have i: "UserAnswer_constraints (submit_all rs db)
       \<and> (case last_accepted sid qid rs db None of
            Some c \<Rightarrow> map answer_selected_choice (answers_for (submit_all rs db) sid qid) = [c]
          | None \<Rightarrow> answers_for (submit_all rs db) sid qid = answers_for db sid qid)"
    by (rule submit_all_invariant [OF assms]) simp
  then have "distinct (map (\<lambda>a. (answer_session a, answer_question a)) (answers (submit_all rs db)))"
    by (simp add: UserAnswer_constraints_def)
  from distinct_key_filter_le1 [OF this, of "(sid, qid)"]
  have "length (answers_for (submit_all rs db) sid qid) \<le> 1"
    by (simp add: answers_for_def)
  with i show ?thesis by simp
qed

theorem answer_upsert_last_write_wins_witness:
  "UserAnswer_constraints example_db
   \<and> UserAnswer_constraints (submit_all example_requests example_db)
   \<and> length (answers_for (submit_all example_requests example_db) 20 15) \<le> 1
   \<and> last_accepted 20 15 example_requests example_db None = Some 16
   \<and> map answer_selected_choice (answers_for (submit_all example_requests example_db) 20 15) = [16]"
  using answer_upsert_last_write_wins [OF example_constraints, of example_requests 20 15]
    example_constraints example_last_accepted
  by simp

section \<open>Access policy\<close>

text \<open>
  The access checks of the two share-code views and the permission classes decide as
  follows. The creator passes both checks, holds the object permission for every method,
  and the quiz is among the rows of the creator's queryset. An anonymous viewer of a
  public quiz passes both checks and is allowed the safe methods only. An anonymous
  viewer of a private quiz with \<open>allow_anonymous_attempts = False\<close> is answered 403 by
  both views and does not find the quiz in the queryset.
\<close>

lemma access_checks:
  "(retrieve_access db quiz (Authenticated (quiz_creator quiz)) = None
    \<and> by_share_code_access db quiz (Authenticated (quiz_creator quiz)) = None
    \<and> IsAuthenticatedOrReadOnly method (Authenticated (quiz_creator quiz))
    \<and> IsCreatorOrReadOnly method (Authenticated (quiz_creator quiz)) quiz
    \<and> (quiz \<in> set (quizzes db)
         \<longrightarrow> quiz \<in> set (QuizViewSet_get_queryset (Authenticated (quiz_creator quiz)) db)))
   \<and> (quiz_is_public quiz \<longrightarrow>
         retrieve_access db quiz AnonymousUser = None
         \<and> by_share_code_access db quiz AnonymousUser = None
         \<and> (IsAuthenticatedOrReadOnly method AnonymousUser \<longleftrightarrow> method \<in> {GET, HEAD, OPTIONS})
         \<and> (quiz \<in> set (quizzes db) \<longrightarrow> quiz \<in> set (QuizViewSet_get_queryset AnonymousUser db)))
   \<and> (\<not> quiz_is_public quiz \<and> \<not> quiz_allow_anonymous_attempts quiz \<longrightarrow>
         retrieve_access db quiz AnonymousUser
           = Some (Response (Error ''This quiz is private. Please log in to attempt it.'') 403)
         \<and> by_share_code_access db quiz AnonymousUser
           = Some (Response (Error ''This quiz is private and requires authentication.'') 403)
         \<and> quiz \<notin> set (QuizViewSet_get_queryset AnonymousUser db))"
proof (intro conjI impI)
  show "retrieve_access db quiz (Authenticated (quiz_creator quiz)) = None"
    by (simp add: retrieve_access_def)
  show "by_share_code_access db quiz (Authenticated (quiz_creator quiz)) = None"
    by (simp add: by_share_code_access_def)
  show "IsAuthenticatedOrReadOnly method (Authenticated (quiz_creator quiz))"
    by (simp add: IsAuthenticatedOrReadOnly_def)
  show "IsCreatorOrReadOnly method (Authenticated (quiz_creator quiz)) quiz"
    by (simp add: IsCreatorOrReadOnly_def)
  show "quiz \<in> set (QuizViewSet_get_queryset (Authenticated (quiz_creator quiz)) db)"
    if "quiz \<in> set (quizzes db)" using that by (rule creator_in_queryset)
next
  assume "quiz_is_public quiz"
  then show "retrieve_access db quiz AnonymousUser = None"
    and "by_share_code_access db quiz AnonymousUser = None"
    by (simp_all add: retrieve_access_def by_share_code_access_def)
  show "IsAuthenticatedOrReadOnly method AnonymousUser \<longleftrightarrow> method \<in> {GET, HEAD, OPTIONS}"
    by (simp add: IsAuthenticatedOrReadOnly_def SAFE_METHODS_def)
  show "quiz \<in> set (QuizViewSet_get_queryset AnonymousUser db)" if "quiz \<in> set (quizzes db)"
    using that \<open>quiz_is_public quiz\<close> by (simp add: QuizViewSet_get_queryset_def)
next
  assume "\<not> quiz_is_public quiz \<and> \<not> quiz_allow_anonymous_attempts quiz"
  then show "retrieve_access db quiz AnonymousUser
           = Some (Response (Error ''This quiz is private. Please log in to attempt it.'') 403)"
    and "by_share_code_access db quiz AnonymousUser
           = Some (Response (Error ''This quiz is private and requires authentication.'') 403)"
    and "quiz \<notin> set (QuizViewSet_get_queryset AnonymousUser db)"
    by (simp_all add: retrieve_access_def by_share_code_access_def QuizViewSet_get_queryset_def)
qed

text \<open>
  Claim C7 gives the creator owner access to every quiz. \<^verbatim>\<open>QuizViewSet.get_queryset\<close>
  joins the share rows without \<^verbatim>\<open>distinct()\<close>, so a quiz with two share rows comes twice
  in the creator's queryset, and \<^verbatim>\<open>get_object\<close>, which every detail route of the viewset
  calls (retrieve, update, delete, share, shares, qr_code), answers 500 to the creator.
\<close>

theorem creator_locked_out_by_two_shares:
  "quiz_creator example_quiz = 1
   \<and> quizzes two_shares_db = [example_quiz]
   \<and> QuizViewSet_get_queryset (Authenticated 1) two_shares_db = [example_quiz, example_quiz]
   \<and> QuizViewSet_get_object (Authenticated 1) 10 two_shares_db
       = Inl (Response (ServerError MultipleObjectsReturned) 500)"
  by (simp add: QuizViewSet_get_object_def QuizViewSet_get_queryset_def two_shares_db_def
      example_db_def example_quiz_def)

section \<open>Sharing a quiz with oneself\<close>

text \<open>
  Claim C8 asks that no path stores a share whose granter is the grantee.
  \<^verbatim>\<open>QuizShareSerializer.validate\<close> refuses such a share; \<^verbatim>\<open>QuizViewSet.share\<close> has no such
  check: alice, naming herself as recipient of her own quiz, is answered 200 and the
  share is stored.
\<close>

theorem share_with_oneself_is_stored:
  "QuizViewSet_share 200 (Authenticated 1) 10 (Some ''alice'') None example_db
   = (Response (QuizShareData
        \<lparr>share_id = 23, share_quiz = 10, share_shared_by = 1, share_shared_with = 1,
          share_shared_at = 200, share_permission_type = ''attempt''\<rparr>) 200,
      example_db\<lparr>next_uuid := 24,
        shares := [\<lparr>share_id = 23, share_quiz = 10, share_shared_by = 1, share_shared_with = 1,
                     share_shared_at = 200, share_permission_type = ''attempt''\<rparr>]\<rparr>)
   \<and> QuizShareSerializer_validate 1 example_quiz 1 example_db
       = Inl ''You cannot share a quiz with yourself.''"
  by (simp add: share_eval QuizShareSerializer_validate_def example_db_def example_quiz_def)

section \<open>Sharing again with the same grantee\<close>

text \<open>
  Claim C9 asks that a share of a quiz with a grantee it is already shared with updates
  the stored permission. Once the quiz is shared with two grantees, \<^verbatim>\<open>get_object\<close>
  answers 500 to the creator (the defect shown for claim C7), so the third call changes
  nothing and bob's share keeps the permission \<^verbatim>\<open>view\<close>.
\<close>

theorem reshare_fails_after_second_grantee:
  "share_all [share_with_bob_view, share_with_carol_view] example_db = two_shares_db
   \<and> share_call share_with_bob_edit two_shares_db
       = (Response (ServerError MultipleObjectsReturned) 500, two_shares_db)
   \<and> map share_permission_type
         (shares_for (share_all [share_with_bob_view, share_with_carol_view, share_with_bob_edit]
                        example_db) 10 2)
       = [''view'']"
proof -
  have c: "share_call share_with_bob_edit two_shares_db
       = (Response (ServerError MultipleObjectsReturned) 500, two_shares_db)"
    by (simp add: share_eval share_with_bob_edit_def two_shares_db_def
        example_db_def example_quiz_def)
  have "share_all [share_with_bob_view, share_with_carol_view, share_with_bob_edit] example_db
        = snd (share_call share_with_bob_edit
                 (share_all [share_with_bob_view, share_with_carol_view] example_db))"
    by simp
  also have "\<dots> = two_shares_db" by (simp only: two_shares_reached c snd_conv)
  finally have "map share_permission_type
         (shares_for (share_all [share_with_bob_view, share_with_carol_view, share_with_bob_edit]
                        example_db) 10 2) = [''view'']"
    by (simp add: shares_for_def two_shares_db_def)
  with two_shares_reached c show ?thesis by simp
qed

section \<open>Optional keys of the extraction result\<close>




section \<open>A malformed record in the bulk build\<close>

text \<open>
  Claim C2 asks that a build with a malformed record persists nothing. The handler in
  \<^verbatim>\<open>create_quiz_from_parsed_data\<close> catches the \<^verbatim>\<open>KeyError\<close> inside the
  \<^verbatim>\<open>transaction.atomic()\<close> block of the view, so the block is left by \<^verbatim>\<open>return\<close> and
  commits: the view answers 500 and the quiz, the question and the choice written before
  the malformed record stay in the tables.
\<close>

theorem build_quiz_malformed_keeps_partial_quiz:
  "CreateQuizFromImageView_create 1 3 ''Broken'' 10 False upload_db
   = (Response (Error ''Failed to create quiz'') 500,
      upload_db\<lparr>next_uuid := 27,
         quizzes := quizzes upload_db @
           [\<lparr>quiz_id = 24, quiz_title = ''Broken'', quiz_creator = 1, quiz_duration_minutes = 10,
             quiz_is_public = False, quiz_share_code = 23, quiz_allow_anonymous_attempts = False\<rparr>],
         questions := questions upload_db @
           [\<lparr>question_id = 25, question_quiz = 24, question_text = ''Q'', question_order = 0\<rparr>],
         choices := choices upload_db @
           [\<lparr>choice_id = 26, choice_question = 25, choice_text = ''A'',
             choice_is_correct = True, choice_order = 0\<rparr>]\<rparr>)"
  by (simp add: CreateQuizFromImageView_create_def transaction_atomic_def parsed_data_falsy_def
      create_quiz_from_parsed_data_def create_quiz_try_def Quiz_objects_create_def
      Question_objects_create_def Choice_objects_create_def uuid4_def Let_def
      malformed_parsed_def upload_db_def example_db_def)

end
